theory Spec2Isabelle
  imports Complex_Main "HOL-Library.Multiset"
begin

section \<open>Data model of the catalogue constructor\<close>

text \<open>
  The development embeds \<^verbatim>\<open>tridesclous/catalogueconstructor.py\<close>. The class
  \<^verbatim>\<open>CatalogueConstructor\<close> becomes a record that every operation takes and returns;
  an exception is a value \<open>Inl e\<close> of the result type. Structured numpy arrays are
  lists of records, in array order; an attribute that the array collection has detached
  (Python's \<^verbatim>\<open>None\<close>) is \<open>None\<close>.
\<close>

datatype error =
    AssertionError
  | ValueError
  | NameError
  | KeyError
  | NotImplementedError
  | ZeroDivisionError
  | TypeError
  | AttributeError
  | IndexError
  | UnboundLocalError

text \<open>A float64 cell: the code stores \<^verbatim>\<open>np.nan\<close> in the unset fields of a cluster row.\<close>

datatype float64 = NaN | Float real

text \<open>\<^verbatim>\<open>_dtype_peak = [('index', 'int64'), ('label', 'int64'), ('segment', 'int64')]\<close>\<close>

record peak =
  index :: int
  label :: int
  segment :: int

text \<open>
  \<^verbatim>\<open>_dtype_cluster = [('cluster_label', 'int64'), ('cell_label', 'int64'),
  ('max_on_channel', 'int64'), ('max_peak_amplitude', 'float64'),
  ('waveform_rms', 'float64'), ('nb_peak', 'int64')]\<close>
\<close>

record cluster =
  cluster_label :: int
  cell_label :: int
  max_on_channel :: int
  max_peak_amplitude :: float64
  waveform_rms :: float64
  nb_peak :: int

text \<open>
  The acquisition layer \<^verbatim>\<open>dataio\<close> is not part of the sources: the attributes the
  constructor reads from it are the fields of a record. Its signal store is kept outside
  this record: an operation that reads conditioned signal takes the reader
  \<^verbatim>\<open>get_signals_chunk\<close> as an argument.
\<close>

record dataio =
  nb_segment :: nat
  sample_rate :: real
  get_segment_length :: "int \<Rightarrow> int"

text \<open>
  The dictionary \<^verbatim>\<open>self.info\<close>: the keys the modelled operations read. A key that
  is absent is \<open>None\<close>; \<open>params_waveformextractor\<close> holds \<open>(n_left, n_right)\<close>.
\<close>

record info =
  params_waveformextractor :: "(int \<times> int) option"
  processed_length :: "int option"

type_synonym waveforms = "real list list list"

text \<open>
  A three-dimensional numpy array: its \<^verbatim>\<open>shape\<close> and its entries along the first,
  second and third axis. Float entries are modelled as reals, so an entry of the model
  is the value the floating-point computation approximates.
\<close>

record tensor =
  shape :: "nat \<times> nat \<times> nat"
  entries :: waveforms

text \<open>
  The attributes of the constructor. \<open>appended_peaks\<close> is the state of the array
  collection for the array \<^verbatim>\<open>all_peaks\<close> between \<^verbatim>\<open>initialize_array\<close> and
  \<^verbatim>\<open>finalize_array\<close>: the records appended so far. \<open>projector\<close> holds the
  \<^verbatim>\<open>transform\<close> method of the fitted projector, which may raise.
\<close>

record catalogueconstructor =
  dataio :: dataio
  info :: info
  nb_channel :: nat
  chunksize :: int
  appended_peaks :: "peak list"
  all_peaks :: "peak list option"
  clusters :: "cluster list option"
  signals_medians :: "real list option"
  signals_mads :: "real list option"
  some_peaks_index :: "int list option"
  some_waveforms :: "tensor option"
  some_features :: "real list list option"
  channel_to_features :: "bool list list option"
  some_noise_index :: "peak list option"
  some_noise_snippet :: "waveforms option"
  some_noise_features :: "real list list option"
  spike_waveforms_similarity :: "real list list option"
  cluster_similarity :: "real list list option"
  cluster_ratio_similarity :: "real list list option"
  spike_silhouette :: "real list option"
  projector :: "(tensor option \<Rightarrow> error + real list list) option"

section \<open>Rebuild of the cluster table\<close>

text \<open>\<^verbatim>\<open>np.unique\<close> on a one-dimensional array: the distinct values, ascending.\<close>

definition np_unique :: "int list \<Rightarrow> int list" where
  "np_unique xs = sort (remdups xs)"

text \<open>\<^verbatim>\<open>np.sum(self.all_peaks['label']==k)\<close>\<close>

definition count_label :: "peak list \<Rightarrow> int \<Rightarrow> int" where
  "count_label ps k = int (length (filter (\<lambda>p. label p = k) ps))"

text \<open>Lines 643 to 650: the fresh row of label \<open>k\<close>.\<close>

definition fresh_cluster :: "peak list \<Rightarrow> int \<Rightarrow> cluster" where
  "fresh_cluster ps k =
     \<lparr>cluster_label = k, cell_label = k, max_on_channel = - 1,
      max_peak_amplitude = NaN, waveform_rms = NaN, nb_peak = count_label ps k\<rparr>"

text \<open>
  Lines 654 to 659: a row whose label is in the previous table takes the \<open>cell_label\<close>
  of the first previous row with that label (\<^verbatim>\<open>np.nonzero(...)[0][0]\<close>). Line 658
  evaluates a membership test and drops its value.
\<close>

definition previous_cell_label :: "cluster list \<Rightarrow> cluster \<Rightarrow> cluster" where
  "previous_cell_label old c =
     (case find (\<lambda>p. cluster_label c = cluster_label p) old of
        None \<Rightarrow> c
      | Some p \<Rightarrow> c\<lparr>cell_label := cell_label p\<rparr>)"

definition new_cluster_table :: "cluster list option \<Rightarrow> peak list \<Rightarrow> cluster list" where
  "new_cluster_table previous ps =
     (let cluster_labels = np_unique (map label ps);
          clusters = map (fresh_cluster ps) cluster_labels
      in case previous of
           None \<Rightarrow> clusters
         | Some old \<Rightarrow> map (previous_cell_label old) clusters)"

definition on_new_cluster :: "catalogueconstructor \<Rightarrow> catalogueconstructor" where
  "on_new_cluster s =
     (case all_peaks s of
        None \<Rightarrow> s
      | Some ps \<Rightarrow>
          (let clusters = new_cluster_table (clusters s) ps
           in if length clusters > 0 then s\<lparr>clusters := Some clusters\<rparr> else s))"

text \<open>A constructor on which nothing has run, used to build concrete states.\<close>

definition blank_dataio :: dataio where
  "blank_dataio =
     \<lparr>nb_segment = 1, sample_rate = 1000, get_segment_length = (\<lambda>_. 0)\<rparr>"

definition blank :: catalogueconstructor where
  "blank =
     \<lparr>dataio = blank_dataio,
      info = \<lparr>params_waveformextractor = None, processed_length = None\<rparr>,
      nb_channel = 1, chunksize = 1024, appended_peaks = [],
      all_peaks = None, clusters = None, signals_medians = None, signals_mads = None,
      some_peaks_index = None, some_waveforms = None, some_features = None,
      channel_to_features = None, some_noise_index = None, some_noise_snippet = None,
      some_noise_features = None, spike_waveforms_similarity = None,
      cluster_similarity = None, cluster_ratio_similarity = None,
      spike_silhouette = None, projector = None\<rparr>"

definition mk_peak :: "int \<Rightarrow> int \<Rightarrow> int \<Rightarrow> peak" where
  "mk_peak i l g = \<lparr>index = i, label = l, segment = g\<rparr>"

text \<open>
  The property of claim C1 as it is worded: the \<open>nb_peak\<close> column sums to the number of
  peaks with a label \<open>\<ge> 0\<close>, and the \<open>cluster_label\<close> column holds exactly the distinct
  peak labels \<open>\<ge> 0\<close>.
\<close>

definition rebuild_invariant_as_stated :: "peak list \<Rightarrow> cluster list \<Rightarrow> bool" where
  "rebuild_invariant_as_stated ps t \<longleftrightarrow>
     sum_list (map nb_peak t) = int (length (filter (\<lambda>p. 0 \<le> label p) ps)) \<and>
     set (map cluster_label t) = set (filter (\<lambda>k. 0 \<le> k) (map label ps))"

section \<open>Re-applying the projector\<close>

text \<open>
  \<^verbatim>\<open>apply_projection\<close>, lines 612 to 619. The assertion is the first branch. The
  transform of the fitted projector runs next and binds the local \<^verbatim>\<open>features\<close>.
  Line 619 then evaluates \<^verbatim>\<open>some_features.astype(...)\<close> as the argument of
  \<^verbatim>\<open>add_array\<close>: \<^verbatim>\<open>some_features\<close> is neither a local nor a global name of
  the module, so the evaluation raises \<^verbatim>\<open>NameError\<close> before anything is stored.
\<close>

definition apply_projection :: "catalogueconstructor \<Rightarrow> error + catalogueconstructor" where
  "apply_projection s =
     (case projector s of
        None \<Rightarrow> Inl AssertionError
      | Some transform \<Rightarrow>
          (case transform (some_waveforms s) of
             Inl e \<Rightarrow> Inl e
           | Inr features \<Rightarrow> Inl NameError))"

section \<open>Trashing small clusters\<close>

text \<open>
  The property \<^verbatim>\<open>cluster_labels\<close>: the label column of the table, empty when there
  is no table.
\<close>

definition cluster_labels :: "catalogueconstructor \<Rightarrow> int list" where
  "cluster_labels s = (case clusters s of None \<Rightarrow> [] | Some t \<Rightarrow> map cluster_label t)"

text \<open>\<^verbatim>\<open>self.all_peaks['label'][mask] = v\<close> with \<^verbatim>\<open>mask = self.all_peaks['label']==k\<close>\<close>

definition set_label_where :: "int \<Rightarrow> int \<Rightarrow> peak list \<Rightarrow> peak list" where
  "set_label_where k v ps = map (\<lambda>p. if label p = k then p\<lparr>label := v\<rparr> else p) ps"

text \<open>The loop of lines 726 to 729 over the labels of the table.\<close>

fun trash_loop :: "int \<Rightarrow> int list \<Rightarrow> peak list \<Rightarrow> peak list" where
  "trash_loop n [] ps = ps"
| "trash_loop n (k # ks) ps =
     trash_loop n ks (if count_label ps k \<le> n then set_label_where k (- 1) ps else ps)"

text \<open>
  \<^verbatim>\<open>trash_small_cluster\<close>: with no row in the table the loop body never runs; with a
  row and no peak table the subscript \<^verbatim>\<open>self.all_peaks['label']\<close> raises
  \<^verbatim>\<open>TypeError\<close>. The rebuild follows the loop.
\<close>

definition trash_small_cluster :: "int \<Rightarrow> catalogueconstructor \<Rightarrow> error + catalogueconstructor" where
  "trash_small_cluster n s =
     (case cluster_labels s of
        [] \<Rightarrow> Inr (on_new_cluster s)
      | k # ks \<Rightarrow>
          (case all_peaks s of
             None \<Rightarrow> Inl TypeError
           | Some ps \<Rightarrow> Inr (on_new_cluster (s\<lparr>all_peaks := Some (trash_loop n (k # ks) ps)\<rparr>))))"

section \<open>Conditioning, peak detection and the reset of the later stages\<close>

text \<open>\<^verbatim>\<open>int(x)\<close> on a float: truncation towards zero.\<close>

definition py_int :: "real \<Rightarrow> int" where
  "py_int x = (if 0 \<le> x then \<lfloor>x\<rfloor> else \<lceil>x\<rceil>)"

text \<open>
  Modelled from the spec: the array collection \<^verbatim>\<open>ArrayCollection\<close> of
  \<^verbatim>\<open>iotools\<close> is not among the sources. The spec describes named arrays that are
  created, appended to incrementally and flushed, each re-run stage reinitialising its
  target before appending. For \<^verbatim>\<open>all_peaks\<close>: \<^verbatim>\<open>initialize_array\<close> empties the
  appended records, \<^verbatim>\<open>append_chunk\<close> adds records at the end, and
  \<^verbatim>\<open>finalize_array\<close> makes the appended records the attribute \<^verbatim>\<open>all_peaks\<close>.
\<close>

definition initialize_array :: "catalogueconstructor \<Rightarrow> catalogueconstructor" where
  "initialize_array s = s\<lparr>appended_peaks := []\<rparr>"

definition append_chunk :: "peak list \<Rightarrow> catalogueconstructor \<Rightarrow> catalogueconstructor" where
  "append_chunk peaks s = s\<lparr>appended_peaks := appended_peaks s @ peaks\<rparr>"

definition finalize_array :: "catalogueconstructor \<Rightarrow> catalogueconstructor" where
  "finalize_array s = s\<lparr>all_peaks := Some (appended_peaks s)\<rparr>"

text \<open>
  \<^verbatim>\<open>_reset_waveform_and_features\<close>: every name of \<^verbatim>\<open>_reset_after_peak_arrays\<close>
  is detached and set to \<^verbatim>\<open>None\<close>.
\<close>

definition reset_waveform_and_features :: "catalogueconstructor \<Rightarrow> catalogueconstructor" where
  "reset_waveform_and_features s =
     s\<lparr>some_peaks_index := None, some_waveforms := None, some_features := None,
       channel_to_features := None,
       some_noise_index := None, some_noise_snippet := None, some_noise_features := None,
       spike_waveforms_similarity := None, cluster_similarity := None,
       cluster_ratio_similarity := None, spike_silhouette := None\<rparr>"

text \<open>
  The conditioning and detection engines are external and stateful. What they return on
  one raw chunk is an argument of the model: \<open>Warmup\<close> when the conditioning engine
  returns no chunk, \<open>Conditioned chunk_peaks\<close> when it returns one, with the positions
  the detector reports on it (\<open>None\<close> for no array).
\<close>

datatype chunk_outcome = Warmup | Conditioned "int list option"

text \<open>Lines 256 to 260: the records of one detected chunk.\<close>

definition new_peaks :: "int \<Rightarrow> int \<Rightarrow> int list \<Rightarrow> peak list" where
  "new_peaks LABEL_UNCLASSIFIED seg_num chunk_peaks =
     map (\<lambda>i. \<lparr>index = i, label = LABEL_UNCLASSIFIED, segment = seg_num\<rparr>) chunk_peaks"

fun signalprocessor_one_chunk ::
  "int \<Rightarrow> chunk_outcome \<Rightarrow> int \<Rightarrow> bool \<Rightarrow> catalogueconstructor \<Rightarrow> catalogueconstructor" where
  "signalprocessor_one_chunk LABEL_UNCLASSIFIED Warmup seg_num detect_peak s = s"
| "signalprocessor_one_chunk LABEL_UNCLASSIFIED (Conditioned chunk_peaks) seg_num detect_peak s =
     (if detect_peak then
        (case chunk_peaks of
           None \<Rightarrow> s
         | Some positions \<Rightarrow> append_chunk (new_peaks LABEL_UNCLASSIFIED seg_num positions) s)
      else s)"

text \<open>
  \<^verbatim>\<open>run_signalprocessor_loop_one_segment\<close>: the processed length is recorded in
  \<^verbatim>\<open>info\<close>, then every chunk of the segment goes through
  \<^verbatim>\<open>signalprocessor_one_chunk\<close>. \<open>stream seg_num\<close> lists the outcomes of the chunks of
  segment \<open>seg_num\<close> in the order of the iterator. The product of line 267 is a
  product of two float64 values, which the machine rounds to a float64:
  \<open>float_product x y\<close> is the float that \<^verbatim>\<open>x*y\<close> evaluates to, an argument of the
  model.
\<close>

definition run_signalprocessor_loop_one_segment ::
  "(real \<Rightarrow> real \<Rightarrow> real) \<Rightarrow> int \<Rightarrow> (int \<Rightarrow> chunk_outcome list) \<Rightarrow> int \<Rightarrow> real \<Rightarrow> bool
     \<Rightarrow> catalogueconstructor \<Rightarrow> error + catalogueconstructor" where
  "run_signalprocessor_loop_one_segment float_product LABEL_UNCLASSIFIED stream seg_num duration
       detect_peak s =
     (let length0 = py_int (float_product duration (sample_rate (dataio s)));
          length1 = min length0 (get_segment_length (dataio s) seg_num)
      in if chunksize s = 0 then Inl ZeroDivisionError
         else
           (let length2 = length1 - length1 mod chunksize s;
                s1 = s\<lparr>info := (info s)\<lparr>processed_length := Some length2\<rparr>\<rparr>
            in Inr (fold (\<lambda>outcome. signalprocessor_one_chunk LABEL_UNCLASSIFIED outcome
                            seg_num detect_peak)
                      (stream seg_num) s1)))"

definition finalize_signalprocessor_loop :: "catalogueconstructor \<Rightarrow> catalogueconstructor" where
  "finalize_signalprocessor_loop s =
     on_new_cluster (reset_waveform_and_features (finalize_array s))"

fun run_segments ::
  "(real \<Rightarrow> real \<Rightarrow> real) \<Rightarrow> int \<Rightarrow> (int \<Rightarrow> chunk_outcome list) \<Rightarrow> real \<Rightarrow> bool \<Rightarrow> nat list
     \<Rightarrow> catalogueconstructor \<Rightarrow> error + catalogueconstructor" where
  "run_segments float_product LABEL_UNCLASSIFIED stream duration detect_peak [] s = Inr s"
| "run_segments float_product LABEL_UNCLASSIFIED stream duration detect_peak (seg_num # rest) s =
     (case run_signalprocessor_loop_one_segment float_product LABEL_UNCLASSIFIED stream
             (int seg_num) duration detect_peak s of
        Inl e \<Rightarrow> Inl e
      | Inr s1 \<Rightarrow>
          run_segments float_product LABEL_UNCLASSIFIED stream duration detect_peak rest s1)"

definition run_signalprocessor ::
  "(real \<Rightarrow> real \<Rightarrow> real) \<Rightarrow> int \<Rightarrow> (int \<Rightarrow> chunk_outcome list) \<Rightarrow> real \<Rightarrow> bool
     \<Rightarrow> catalogueconstructor \<Rightarrow> error + catalogueconstructor" where
  "run_signalprocessor float_product LABEL_UNCLASSIFIED stream duration detect_peak s =
     (case run_segments float_product LABEL_UNCLASSIFIED stream duration detect_peak
             [0..<nb_segment (dataio s)] s of
        Inl e \<Rightarrow> Inl e
      | Inr s1 \<Rightarrow> Inr (finalize_signalprocessor_loop s1))"

text \<open>
  \<^verbatim>\<open>re_detect_peak\<close>: the peak array is initialised again, the new detector runs over
  the conditioned chunks of every segment, and the same finalisation follows.
  \<open>detector seg_num\<close> lists what the detector returns on the chunks of segment
  \<open>seg_num\<close>.
\<close>

definition redetect_one_chunk ::
  "int \<Rightarrow> int \<Rightarrow> int list option \<Rightarrow> catalogueconstructor \<Rightarrow> catalogueconstructor" where
  "redetect_one_chunk LABEL_UNCLASSIFIED seg_num chunk_peaks s =
     (case chunk_peaks of
        None \<Rightarrow> s
      | Some positions \<Rightarrow> append_chunk (new_peaks LABEL_UNCLASSIFIED seg_num positions) s)"

definition redetect_one_segment ::
  "int \<Rightarrow> (int \<Rightarrow> int list option list) \<Rightarrow> nat \<Rightarrow> catalogueconstructor \<Rightarrow> catalogueconstructor" where
  "redetect_one_segment LABEL_UNCLASSIFIED detector seg_num s =
     fold (redetect_one_chunk LABEL_UNCLASSIFIED (int seg_num)) (detector (int seg_num)) s"

definition re_detect_peak ::
  "int \<Rightarrow> (int \<Rightarrow> int list option list) \<Rightarrow> catalogueconstructor \<Rightarrow> catalogueconstructor" where
  "re_detect_peak LABEL_UNCLASSIFIED detector s =
     (let s1 = initialize_array s;
          s2 = fold (redetect_one_segment LABEL_UNCLASSIFIED detector)
                 [0..<nb_segment (dataio s1)] s1
      in on_new_cluster (reset_waveform_and_features (finalize_array s2)))"

text \<open>The arrays that claim C9 lists as downstream of peak detection are all absent.\<close>

definition downstream_absent :: "catalogueconstructor \<Rightarrow> bool" where
  "downstream_absent s \<longleftrightarrow>
     some_peaks_index s = None \<and> some_waveforms s = None \<and> some_features s = None \<and>
     channel_to_features s = None \<and> some_noise_index s = None \<and>
     some_noise_snippet s = None \<and> some_noise_features s = None \<and>
     spike_waveforms_similarity s = None \<and> cluster_similarity s = None \<and>
     cluster_ratio_similarity s = None \<and> spike_silhouette s = None"

section \<open>Noise sampling\<close>

text \<open>
  A bound of a Python slice on an array of \<open>len\<close> elements: a negative bound counts
  from the end, and the result is clipped to the array.
\<close>

definition slice_bound :: "int \<Rightarrow> int \<Rightarrow> int" where
  "slice_bound len i = (if i < 0 then max (i + len) 0 else min i len)"

text \<open>\<^verbatim>\<open>possibles[lo:hi] = False\<close>, with the bounds already clipped.\<close>

definition clear_slice :: "int \<Rightarrow> int \<Rightarrow> bool list \<Rightarrow> bool list" where
  "clear_slice lo hi xs =
     map (\<lambda>(j, x). if lo \<le> int j \<and> int j < hi then False else x) (zip [0..<length xs] xs)"

text \<open>\<^verbatim>\<open>np.nonzero\<close> on a boolean vector: the positions that hold \<^verbatim>\<open>True\<close>.\<close>

definition np_nonzero :: "bool list \<Rightarrow> nat list" where
  "np_nonzero xs = filter (\<lambda>j. xs ! j) [0..<length xs]"

text \<open>
  Lines 559 and 560: the body of the loop over the peaks of the segment is the expression
  \<^verbatim>\<open>possibles[peak['index']+n_left-n_right:peak['index']+n_right-n_left]\<close>. It reads
  a slice and drops it; nothing is assigned, so the mask leaves the loop as it entered.
\<close>

fun peak_band_loop :: "int \<Rightarrow> int \<Rightarrow> peak list \<Rightarrow> bool list \<Rightarrow> bool list" where
  "peak_band_loop n_left n_right [] possibles = possibles"
| "peak_band_loop n_left n_right (peak # peaks) possibles =
     peak_band_loop n_left n_right peaks possibles"

text \<open>Lines 555 to 561: the eligible sample positions of one segment.\<close>

definition possible_indexes :: "int \<Rightarrow> int \<Rightarrow> int \<Rightarrow> peak list \<Rightarrow> nat list" where
  "possible_indexes len n_left n_right peaks =
     (let peak_width = n_right - n_left;
          possibles = replicate (nat len) True;
          possibles = clear_slice 0 (slice_bound len peak_width) possibles;
          possibles = clear_slice (slice_bound len (- peak_width)) len possibles;
          possibles = peak_band_loop n_left n_right peaks possibles
      in np_nonzero possibles)"

text \<open>
  Lines 552 to 566, one turn of the loop over the segments. \<open>choice seg_num a size\<close> is
  what \<^verbatim>\<open>np.random.choice(a, size=size)\<close> returns in the turn of segment \<open>seg_num\<close>.
  The checks that numpy makes are branches: a negative length or count, an empty
  population with a positive count, a result of the wrong length for the assignment to
  the \<^verbatim>\<open>index\<close> column, a position outside \<^verbatim>\<open>possible_indexes\<close>.
\<close>

definition noise_one_segment ::
  "int \<Rightarrow> (int \<Rightarrow> nat \<Rightarrow> int \<Rightarrow> nat list) \<Rightarrow> int \<Rightarrow> int \<Rightarrow> int \<Rightarrow> int \<Rightarrow> catalogueconstructor
     \<Rightarrow> error + peak list" where
  "noise_one_segment LABEL_NOISE choice n_left n_right n_by_seg seg_num s =
     (case processed_length (info s) of
        None \<Rightarrow> Inl KeyError
      | Some len \<Rightarrow>
          if len < 0 then Inl ValueError
          else
            (case all_peaks s of
               None \<Rightarrow> Inl TypeError
             | Some every_peak \<Rightarrow>
                 (let peaks = filter (\<lambda>p. segment p = seg_num) every_peak;
                      possible = possible_indexes len n_left n_right peaks
                  in if n_by_seg < 0 then Inl ValueError
                     else if length possible = 0 \<and> n_by_seg \<noteq> 0 then Inl ValueError
                     else
                       (let draws = choice seg_num (length possible) n_by_seg
                        in if int (length draws) \<noteq> n_by_seg then Inl ValueError
                           else if \<exists>d\<in>set draws. length possible \<le> d then Inl IndexError
                           else Inr (map (\<lambda>d. \<lparr>index = int (possible ! d),
                                                 label = LABEL_NOISE, segment = seg_num\<rparr>)
                                       (sort draws))))))"

fun noise_segments ::
  "int \<Rightarrow> (int \<Rightarrow> nat \<Rightarrow> int \<Rightarrow> nat list) \<Rightarrow> int \<Rightarrow> int \<Rightarrow> int \<Rightarrow> nat list
     \<Rightarrow> catalogueconstructor \<Rightarrow> error + peak list" where
  "noise_segments LABEL_NOISE choice n_left n_right n_by_seg [] s = Inr []"
| "noise_segments LABEL_NOISE choice n_left n_right n_by_seg (seg_num # rest) s =
     (case noise_one_segment LABEL_NOISE choice n_left n_right n_by_seg (int seg_num) s of
        Inl e \<Rightarrow> Inl e
      | Inr noise_index \<Rightarrow>
          (case noise_segments LABEL_NOISE choice n_left n_right n_by_seg rest s of
             Inl e \<Rightarrow> Inl e
           | Inr others \<Rightarrow> Inr (noise_index @ others)))"

text \<open>
  \<^verbatim>\<open>self.some_noise_snippet[n, :, :] = snippet\<close>: the window read from the signal is
  copied when it has \<open>peak_width\<close> rows, repeated when it has one row (numpy
  broadcasting), and refused otherwise.
\<close>

definition store_snippet :: "int \<Rightarrow> real list list \<Rightarrow> error + real list list" where
  "store_snippet peak_width snippet =
     (if int (length snippet) = peak_width then Inr snippet
      else if length snippet = 1 then Inr (replicate (nat peak_width) (hd snippet))
      else Inl ValueError)"

fun read_snippets ::
  "(int \<Rightarrow> int \<Rightarrow> int \<Rightarrow> real list list) \<Rightarrow> int \<Rightarrow> int \<Rightarrow> peak list \<Rightarrow> error + waveforms" where
  "read_snippets get_signals_chunk n_left peak_width [] = Inr []"
| "read_snippets get_signals_chunk n_left peak_width (ind # rest) =
     (let i_start = index ind + n_left;
          i_stop = i_start + peak_width
      in case store_snippet peak_width (get_signals_chunk (segment ind) i_start i_stop) of
           Inl e \<Rightarrow> Inl e
         | Inr snippet \<Rightarrow>
             (case read_snippets get_signals_chunk n_left peak_width rest of
                Inl e \<Rightarrow> Inl e
              | Inr others \<Rightarrow> Inr (snippet # others)))"

text \<open>
  \<^verbatim>\<open>extract_some_noise\<close>. The index records are stored before the snippet array is
  created, whose shape has \<open>peak_width\<close> as a dimension.
\<close>

definition extract_some_noise ::
  "int \<Rightarrow> (int \<Rightarrow> nat \<Rightarrow> int \<Rightarrow> nat list) \<Rightarrow> (int \<Rightarrow> int \<Rightarrow> int \<Rightarrow> real list list) \<Rightarrow> int
     \<Rightarrow> catalogueconstructor \<Rightarrow> error + catalogueconstructor" where
  "extract_some_noise LABEL_NOISE choice get_signals_chunk nb_snippet s =
     (case params_waveformextractor (info s) of
        None \<Rightarrow> Inl AssertionError
      | Some (n_left, n_right) \<Rightarrow>
          (let peak_width = n_right - n_left
           in if nb_segment (dataio s) = 0 then Inl ZeroDivisionError
              else
                (let n_by_seg = nb_snippet div int (nb_segment (dataio s))
                 in case noise_segments LABEL_NOISE choice n_left n_right n_by_seg
                           [0..<nb_segment (dataio s)] s of
                      Inl e \<Rightarrow> Inl e
                    | Inr noise_index \<Rightarrow>
                        if peak_width < 0 then Inl ValueError
                        else
                          (case read_snippets get_signals_chunk n_left peak_width noise_index of
                             Inl e \<Rightarrow> Inl e
                           | Inr snippets \<Rightarrow>
                               Inr (s\<lparr>some_noise_index := Some noise_index,
                                      some_noise_snippet := Some snippets\<rparr>)))))"

text \<open>
  Two waveform windows \<open>[i + n_left, i + n_right)\<close> and \<open>[j + n_left, j + n_right)\<close>
  share a sample.
\<close>

definition windows_overlap :: "int \<Rightarrow> int \<Rightarrow> int \<Rightarrow> int \<Rightarrow> bool" where
  "windows_overlap n_left n_right i j \<longleftrightarrow> i + n_left < j + n_right \<and> j + n_left < i + n_right"

section \<open>Noise estimation\<close>

text \<open>
  Lines 212 and 213: the requested number of samples, and that number rounded down to a
  whole number of chunks. The product of line 212 is a product of two float64 values,
  which the machine rounds to a float64: \<open>float_product x y\<close> is the float that
  \<^verbatim>\<open>x*y\<close> evaluates to, an argument of the model. \<^verbatim>\<open>int\<close> then truncates that
  float, which is exact.
\<close>

definition requested_samples ::
  "(real \<Rightarrow> real \<Rightarrow> real) \<Rightarrow> catalogueconstructor \<Rightarrow> real \<Rightarrow> int" where
  "requested_samples float_product s duration =
     py_int (float_product duration (sample_rate (dataio s)))"

definition chunked_length ::
  "(real \<Rightarrow> real \<Rightarrow> real) \<Rightarrow> catalogueconstructor \<Rightarrow> real \<Rightarrow> int" where
  "chunked_length float_product s duration =
     requested_samples float_product s duration
       - requested_samples float_product s duration mod chunksize s"

text \<open>
  Modelled from the spec: the array collection is not among the sources; the spec
  describes a named container in which numeric arrays are created. \<^verbatim>\<open>create_array\<close>
  with the shape \<open>(rows, nb_channel)\<close> gives a new array of that shape, which holds
  zeros as a new memory-mapped file does. numpy refuses a negative dimension; the
  exception it raises then is written \<open>ValueError\<close>.
\<close>

definition create_array :: "int \<Rightarrow> nat \<Rightarrow> error + real list list" where
  "create_array rows nchan =
     (if rows < 0 then Inl ValueError
      else Inr (replicate (nat rows) (replicate nchan 0)))"

text \<open>
  numpy broadcasting in the assignment of a two-dimensional chunk to a block of \<open>m\<close>
  rows and \<open>nchan\<close> columns: along each axis the chunk has the extent of the block or
  the extent 1, where it is repeated; any other chunk is refused.
\<close>

definition broadcast_chunk :: "nat \<Rightarrow> nat \<Rightarrow> real list list \<Rightarrow> error + real list list" where
  "broadcast_chunk m nchan chunk =
     (if (length chunk = m \<or> length chunk = 1)
         \<and> (\<forall>row\<in>set chunk. length row = nchan \<or> length row = 1)
      then Inr (map (\<lambda>row. if length row = nchan then row else replicate nchan (hd row))
                  (if length chunk = m then chunk else replicate m (hd chunk)))
      else Inl ValueError)"

text \<open>
  Line 229,
  \<^verbatim>\<open>filtered_sigs[pos2-preprocessed_chunk.shape[0]:pos2, :] = preprocessed_chunk\<close>.
  The bounds of the slice are normalised as Python does: a negative bound counts from
  the end, and both are clipped to the array.
\<close>

definition assign_chunk ::
  "nat \<Rightarrow> real list list \<Rightarrow> int \<Rightarrow> real list list \<Rightarrow> error + real list list" where
  "assign_chunk nchan filtered_sigs pos2 preprocessed_chunk =
     (let rows = int (length filtered_sigs);
          lo = slice_bound rows (pos2 - int (length preprocessed_chunk));
          hi = slice_bound rows pos2;
          m = nat (hi - lo)
      in case broadcast_chunk m nchan preprocessed_chunk of
           Inl e \<Rightarrow> Inl e
         | Inr block \<Rightarrow>
             Inr (take (nat lo) filtered_sigs @ block @ drop (nat lo + m) filtered_sigs))"

text \<open>
  Lines 226 to 229. The chunk iterator and the conditioning engine are external and
  stateful: the first argument after the channel count lists what
  \<^verbatim>\<open>process_data\<close> returns on the successive chunks of the iterator, the position
  \<open>pos2\<close> and the conditioned chunk, \<open>None\<close> while the engine warms up. The loop
  carries the array and the local \<^verbatim>\<open>pos2\<close>, which is \<open>None\<close> as long as no turn of
  the loop has bound it.
\<close>

fun conditioning_loop ::
  "nat \<Rightarrow> (int \<times> real list list option) list \<Rightarrow> real list list \<times> int option
     \<Rightarrow> error + real list list \<times> int option" where
  "conditioning_loop nchan [] bound = Inr bound"
| "conditioning_loop nchan ((pos2, preprocessed_chunk) # rest) (filtered_sigs, previous) =
     (case preprocessed_chunk of
        None \<Rightarrow> conditioning_loop nchan rest (filtered_sigs, Some pos2)
      | Some chunk \<Rightarrow>
          (case assign_chunk nchan filtered_sigs pos2 chunk of
             Inl e \<Rightarrow> Inl e
           | Inr updated \<Rightarrow> conditioning_loop nchan rest (updated, Some pos2)))"

text \<open>
  \<^verbatim>\<open>estimate_signals_noise\<close>. The remainder operator raises on a zero chunk size; the
  assertion of line 215 follows. \<open>lostfront_chunksize\<close> is the entry of that name of
  \<^verbatim>\<open>self.params_signalpreprocessor\<close>, and \<open>conditioning seg_num i_stop\<close> lists what
  the conditioning engine returns on the chunks that the iterator gives for the segment
  up to \<open>i_stop\<close>. Line 236 reads the local \<^verbatim>\<open>pos2\<close>, which is unbound when the
  iterator gave no chunk. The statistics of lines 236 and 237 are computed by numpy in
  floating point: \<open>column_medians x\<close> is \<^verbatim>\<open>np.median(x, axis=0)\<close> and
  \<open>column_spreads x medians\<close> is
  \<^verbatim>\<open>np.median(np.abs(x-medians), axis=0)*1.4826\<close>, both arguments of the model.
\<close>

definition estimate_signals_noise ::
  "(real \<Rightarrow> real \<Rightarrow> real) \<Rightarrow> int \<Rightarrow> (int \<Rightarrow> int \<Rightarrow> (int \<times> real list list option) list)
     \<Rightarrow> (real list list \<Rightarrow> real list) \<Rightarrow> (real list list \<Rightarrow> real list \<Rightarrow> real list)
     \<Rightarrow> int \<Rightarrow> real \<Rightarrow> catalogueconstructor \<Rightarrow> error + catalogueconstructor" where
  "estimate_signals_noise float_product lostfront_chunksize conditioning column_medians
       column_spreads seg_num duration s =
     (if chunksize s = 0 then Inl ZeroDivisionError
      else
        (let len = chunked_length float_product s duration
         in if \<not> len < get_segment_length (dataio s) seg_num then Inl AssertionError
            else
              (case create_array (len - lostfront_chunksize) (nb_channel s) of
                 Inl e \<Rightarrow> Inl e
               | Inr filtered_sigs \<Rightarrow>
                   (case conditioning_loop (nb_channel s) (conditioning seg_num len)
                           (filtered_sigs, None) of
                      Inl e \<Rightarrow> Inl e
                    | Inr (filtered, None) \<Rightarrow> Inl UnboundLocalError
                    | Inr (filtered, Some pos2) \<Rightarrow>
                        (let head_rows =
                               take (nat (slice_bound (int (length filtered)) pos2)) filtered;
                             medians = column_medians head_rows
                         in Inr (s\<lparr>signals_medians := Some medians,
                                   signals_mads := Some (column_spreads head_rows medians)\<rparr>))))))"

text \<open>
  The conditioned chunks lie inside an array of \<open>rows\<close> rows and \<open>nchan\<close> columns:
  each chunk has \<open>nchan\<close> columns and its rows end at a position \<open>pos2\<close> of the array
  that leaves room for them.
\<close>

definition chunks_fit :: "int \<Rightarrow> nat \<Rightarrow> (int \<times> real list list option) list \<Rightarrow> bool" where
  "chunks_fit rows nchan outcomes \<longleftrightarrow>
     (\<forall>r\<in>set outcomes.
        case snd r of
          None \<Rightarrow> True
        | Some chunk \<Rightarrow>
            int (length chunk) \<le> fst r \<and> fst r \<le> rows \<and> (\<forall>row\<in>set chunk. length row = nchan))"

section \<open>Reordering the clusters\<close>

text \<open>Arithmetic on \<^verbatim>\<open>int64\<close> wraps around: the value of a sum or product as numpy keeps it.\<close>

definition wrap64 :: "int \<Rightarrow> int" where
  "wrap64 x = (x + 2 ^ 63) mod 2 ^ 64 - 2 ^ 63"

text \<open>\<^verbatim>\<open>np.abs\<close> on a float64 cell.\<close>

definition float_abs :: "float64 \<Rightarrow> float64" where
  "float_abs x = (case x of NaN \<Rightarrow> NaN | Float r \<Rightarrow> Float \<bar>r\<bar>)"

text \<open>Python's \<^verbatim>\<open>max\<close> on a sequence that is not empty.\<close>

definition py_max :: "int list \<Rightarrow> int" where
  "py_max xs = fold max (tl xs) (hd xs)"

text \<open>
  Lines 873 to 878: the order of the rows of \<open>pos_clusters\<close>. \<^verbatim>\<open>np.argsort\<close> works on
  floating-point keys and its default sort is not stable; it is the argument
  \<open>argsort\<close>, and \<^verbatim>\<open>[::-1]\<close> reverses what it returns.
\<close>

definition cluster_order :: "(float64 list \<Rightarrow> nat list) \<Rightarrow> string \<Rightarrow> cluster list \<Rightarrow> nat list" where
  "cluster_order argsort by pos_clusters =
     (if by = ''waveforms_rms'' then rev (argsort (map waveform_rms pos_clusters))
      else rev (argsort (map (\<lambda>c. float_abs (max_peak_amplitude c)) pos_clusters)))"

text \<open>\<^verbatim>\<open>self.all_peaks['label'][self.all_peaks['label']>=0] += N\<close>\<close>

definition shift_labels :: "int \<Rightarrow> peak list \<Rightarrow> peak list" where
  "shift_labels N ps =
     map (\<lambda>p. if 0 \<le> label p then p\<lparr>label := wrap64 (label p + N)\<rparr> else p) ps"

text \<open>Lines 885 and 886: the loop over \<^verbatim>\<open>enumerate(sorted_labels+N)\<close>.\<close>

fun reassign_labels :: "(nat \<times> int) list \<Rightarrow> peak list \<Rightarrow> peak list" where
  "reassign_labels [] ps = ps"
| "reassign_labels ((new, old) # rest) ps =
     reassign_labels rest (set_label_where old (int new) ps)"

text \<open>
  Lines 895 to 898, one turn of the loop over the rows: \<open>inds\<close> are the positions whose
  \<open>cell_label\<close> is that of row \<open>i\<close>; when row \<open>i\<close> is the first of them, all of them get
  the value \<open>i\<close>.
\<close>

definition cell_step :: "nat \<Rightarrow> int list \<Rightarrow> int list" where
  "cell_step i cells =
     (let k = cells ! i;
          inds = filter (\<lambda>j. cells ! j = k) [0..<length cells]
      in if length inds \<ge> 1 \<and> inds ! 0 = i
         then map (\<lambda>c. if c = k then int i else c) cells
         else cells)"

definition resolve_cells :: "int list \<Rightarrow> int list" where
  "resolve_cells cells = fold cell_step [0..<length cells] cells"

text \<open>
  \<^verbatim>\<open>order_clusters\<close>, from line 868 on: the centroids exist, and computing them writes
  only the columns \<open>max_on_channel\<close>, \<open>max_peak_amplitude\<close> and \<open>waveform_rms\<close>. Without a
  table \<^verbatim>\<open>self.clusters.copy()\<close> raises; an unknown key raises
  \<^verbatim>\<open>NotImplementedError\<close>; \<^verbatim>\<open>max\<close> of no label raises \<^verbatim>\<open>ValueError\<close>.
\<close>

definition order_clusters ::
  "(float64 list \<Rightarrow> nat list) \<Rightarrow> string \<Rightarrow> catalogueconstructor \<Rightarrow> error + catalogueconstructor" where
  "order_clusters argsort by s =
     (case clusters s of
        None \<Rightarrow> Inl AttributeError
      | Some table \<Rightarrow>
          (let neg_clusters = filter (\<lambda>c. cluster_label c < 0) table;
               pos_clusters = filter (\<lambda>c. 0 \<le> cluster_label c) table
           in if by \<noteq> ''waveforms_rms'' \<and> by \<noteq> ''max_peak_amplitude''
              then Inl NotImplementedError
              else
                (let order = cluster_order argsort by pos_clusters;
                     sorted_labels = map (\<lambda>i. cluster_label (pos_clusters ! i)) order
                 in if sorted_labels = [] then Inl ValueError
                    else
                      (let N = wrap64 (py_max sorted_labels * 10)
                       in case all_peaks s of
                            None \<Rightarrow> Inl TypeError
                          | Some ps \<Rightarrow>
                              (let shifted = shift_labels N ps;
                                   relabelled = reassign_labels
                                     (enumerate 0 (map (\<lambda>l. wrap64 (l + N)) sorted_labels))
                                     shifted;
                                   sorted_clusters = map (\<lambda>i. pos_clusters ! i) order;
                                   numbered = map (\<lambda>(i, c). c\<lparr>cluster_label := int i\<rparr>)
                                     (enumerate 0 sorted_clusters);
                                   cells = resolve_cells
                                     (map (\<lambda>c. wrap64 (cell_label c + N)) numbered);
                                   pos_clusters = map (\<lambda>(c, k). c\<lparr>cell_label := k\<rparr>)
                                     (zip numbered cells)
                               in Inr (s\<lparr>all_peaks := Some relabelled,
                                        clusters := Some (neg_clusters @ pos_clusters)\<rparr>))))))"

text \<open>The position of the first occurrence of a value in a list.\<close>

fun first_index :: "int list \<Rightarrow> int \<Rightarrow> nat" where
  "first_index [] x = 0"
| "first_index (y # ys) x = (if x = y then 0 else Suc (first_index ys x))"

text \<open>
  No new label \<open>k + j\<close> written in turn \<open>j\<close> of the relabelling loop is an old label
  that a later turn looks for.
\<close>

definition no_collision :: "nat \<Rightarrow> int list \<Rightarrow> bool" where
  "no_collision k olds \<longleftrightarrow> (\<forall>j<length olds. int (k + j) \<notin> set (drop (Suc j) olds))"

text \<open>A row of the cluster table with its float fields unset.\<close>

definition mk_cluster :: "int \<Rightarrow> int \<Rightarrow> int \<Rightarrow> cluster" where
  "mk_cluster l c n =
     \<lparr>cluster_label = l, cell_label = c, max_on_channel = - 1,
      max_peak_amplitude = NaN, waveform_rms = NaN, nb_peak = n\<rparr>"

section \<open>Building the catalogue\<close>

text \<open>\<^verbatim>\<open>np.median\<close> of a vector that is not empty.\<close>

definition np_median :: "real list \<Rightarrow> real" where
  "np_median xs =
     (let ys = sort xs; n = length ys
      in if odd n then ys ! (n div 2) else (ys ! (n div 2 - 1) + ys ! (n div 2)) / 2)"

text \<open>
  \<^verbatim>\<open>np.median(wf, axis=0)\<close> for waveforms of \<open>full_width\<close> samples on
  \<open>nchan\<close> channels: the median over the waveforms at every sample and channel.
\<close>

definition median_axis0 :: "nat \<Rightarrow> nat \<Rightarrow> waveforms \<Rightarrow> real list list" where
  "median_axis0 full_width nchan waveform_array =
     map (\<lambda>t. map (\<lambda>c. np_median (map (\<lambda>w. w ! t ! c) waveform_array)) [0..<nchan])
         [0..<full_width]"

text \<open>
  \<^verbatim>\<open>scipy.signal.fftconvolve(wf, kernel, 'same')\<close> with the kernel
  \<^verbatim>\<open>[1, 0, -1]/2\<close> on the time axis, on one waveform: the sample after minus the
  sample before, halved, the waveform counting as zero outside its window. The
  transform-based routine computes this sum up to rounding.
\<close>

definition central_difference :: "nat \<Rightarrow> nat \<Rightarrow> real list list \<Rightarrow> real list list" where
  "central_difference full_width nchan w =
     map (\<lambda>t. map (\<lambda>c. ((if t + 1 < full_width then w ! (t + 1) ! c else 0)
                          - (if 0 < t then w ! (t - 1) ! c else 0)) / 2)
                [0..<nchan])
         [0..<full_width]"

text \<open>\<^verbatim>\<open>center[2:-2, :]\<close> on an array of at least four rows.\<close>

definition trim2 :: "real list list \<Rightarrow> real list list" where
  "trim2 center = take (length center - 4) (drop 2 center)"

text \<open>
  \<^verbatim>\<open>np.arange(1.5, full_width-2.5, 1/20.)\<close>. numpy takes the number of points as the
  ceiling of \<^verbatim>\<open>(stop - start)/step\<close>; over the reals that is \<open>20 * (full_width - 4)\<close>.
\<close>

definition subsample_grid :: "nat \<Rightarrow> real list" where
  "subsample_grid full_width = map (\<lambda>k. 3 / 2 + real k / 20) [0..<20 * (full_width - 4)]"

text \<open>
  \<^verbatim>\<open>self.all_peaks['label'][self.some_peaks_index]\<close>: an index counts from the end
  when negative, and raises outside the array.
\<close>

fun take_labels :: "peak list \<Rightarrow> int list \<Rightarrow> error + int list" where
  "take_labels ps [] = Inr []"
| "take_labels ps (j # js) =
     (let j' = (if j < 0 then j + int (length ps) else j)
      in if j' < 0 \<or> int (length ps) \<le> j' then Inl IndexError
         else
           (case take_labels ps js of
              Inl e \<Rightarrow> Inl e
            | Inr ls \<Rightarrow> Inr (label (ps ! nat j') # ls)))"

definition sample_labels :: "catalogueconstructor \<Rightarrow> error + int list" where
  "sample_labels s =
     (case all_peaks s of
        None \<Rightarrow> Inl TypeError
      | Some ps \<Rightarrow>
          (case some_peaks_index s of
             None \<Rightarrow> Inl IndexError
           | Some idx \<Rightarrow> take_labels ps idx))"

text \<open>
  \<^verbatim>\<open>self.some_waveforms[mask]\<close> with the boolean mask of the sampled peaks of label
  \<open>k\<close>: the mask must be as long as the first axis.
\<close>

definition member_waveforms :: "int list \<Rightarrow> tensor \<Rightarrow> int \<Rightarrow> error + waveforms" where
  "member_waveforms labels waveform_array k =
     (if length labels \<noteq> fst (shape waveform_array) then Inl IndexError
      else Inr (map snd (filter (\<lambda>(l, w). l = k) (zip labels (entries waveform_array)))))"

text \<open>
  Lines 940 to 963 for one cluster. With no member waveform the first convolution gives
  an empty one-dimensional array, and the second one raises on the dimensions. The cubic
  interpolation of scipy is the argument \<open>interp1d\<close>, from the median template and the
  grid to the oversampled template; the assignment into \<^verbatim>\<open>interp_centers0\<close> wants
  one row of \<open>nchan\<close> values per grid point. The result is the four arrays stored at
  position \<open>i\<close>: orders 0, 1, 2 and the interpolant.
\<close>

definition cluster_templates ::
  "(real list list \<Rightarrow> real list \<Rightarrow> real list list) \<Rightarrow> nat \<Rightarrow> nat \<Rightarrow> waveforms
     \<Rightarrow> error + (real list list \<times> real list list \<times> real list list \<times> real list list)" where
  "cluster_templates interp1d full_width nchan wf0 =
     (if wf0 = [] then Inl ValueError
      else
        (let wf1 = map (central_difference full_width nchan) wf0;
             wf2 = map (central_difference full_width nchan) wf1;
             center0 = median_axis0 full_width nchan wf0;
             oversampled_center = interp1d center0 (subsample_grid full_width)
         in if length oversampled_center \<noteq> length (subsample_grid full_width)
               \<or> (\<exists>r\<in>set oversampled_center. length r \<noteq> nchan)
            then Inl ValueError
            else Inr (trim2 center0,
                      trim2 (median_axis0 full_width nchan wf1),
                      trim2 (median_axis0 full_width nchan wf2),
                      oversampled_center)))"

fun catalogue_loop ::
  "(real list list \<Rightarrow> real list \<Rightarrow> real list list) \<Rightarrow> catalogueconstructor \<Rightarrow> tensor
     \<Rightarrow> int list
     \<Rightarrow> error + (real list list \<times> real list list \<times> real list list \<times> real list list) list" where
  "catalogue_loop interp1d s waveform_array [] = Inr []"
| "catalogue_loop interp1d s waveform_array (k # ks) =
     (case sample_labels s of
        Inl e \<Rightarrow> Inl e
      | Inr labels \<Rightarrow>
          (case member_waveforms labels waveform_array k of
             Inl e \<Rightarrow> Inl e
           | Inr wf0 \<Rightarrow>
               (case cluster_templates interp1d (fst (snd (shape waveform_array)))
                       (snd (snd (shape waveform_array))) wf0 of
                  Inl e \<Rightarrow> Inl e
                | Inr templates \<Rightarrow>
                    (case catalogue_loop interp1d s waveform_array ks of
                       Inl e \<Rightarrow> Inl e
                     | Inr others \<Rightarrow> Inr (templates # others)))))"

text \<open>\<^verbatim>\<open>np.argmax\<close> of a vector that is not empty: the first position of the maximum.\<close>

fun argmax_from :: "nat \<Rightarrow> real \<Rightarrow> nat \<Rightarrow> real list \<Rightarrow> nat" where
  "argmax_from best v j [] = best"
| "argmax_from best v j (x # xs) =
     (if v < x then argmax_from j x (Suc j) xs else argmax_from best v (Suc j) xs)"

definition np_argmax :: "real list \<Rightarrow> error + nat" where
  "np_argmax xs = (case xs of [] \<Rightarrow> Inl ValueError | x # rest \<Rightarrow> Inr (argmax_from 0 x 1 rest))"

text \<open>
  Lines 972 to 974 for one cluster: \<^verbatim>\<open>np.argmax(np.abs(center[-n_left,:]))\<close> on the
  order-0 template, with Python's reading of the row index.
\<close>

definition template_max_channel :: "int \<Rightarrow> real list list \<Rightarrow> error + int" where
  "template_max_channel n_left center =
     (let r = (if - n_left < 0 then - n_left + int (length center) else - n_left)
      in if r < 0 \<or> int (length center) \<le> r then Inl IndexError
         else
           (case np_argmax (map abs (center ! nat r)) of
              Inl e \<Rightarrow> Inl e
            | Inr c \<Rightarrow> Inr (int c)))"

fun max_channels :: "int \<Rightarrow> real list list list \<Rightarrow> error + int list" where
  "max_channels n_left [] = Inr []"
| "max_channels n_left (center # rest) =
     (case template_max_channel n_left center of
        Inl e \<Rightarrow> Inl e
      | Inr c \<Rightarrow>
          (case max_channels n_left rest of
             Inl e \<Rightarrow> Inl e
           | Inr cs \<Rightarrow> Inr (c # cs)))"

text \<open>
  The keys of the dictionary \<^verbatim>\<open>self.catalogue\<close> that hold the window, the labels and
  the template arrays. The colours, the parameter dictionaries and the copies of the
  signal medians and spreads are not part of the model.
\<close>

record catalogue =
  catalogue_n_left :: int
  catalogue_n_right :: int
  catalogue_peak_width :: int
  catalogue_cluster_labels :: "int list"
  centers0 :: tensor
  centers1 :: tensor
  centers2 :: tensor
  subsample_ratio :: nat
  interp_centers0 :: tensor
  label_to_index :: "(int \<times> nat) list"
  catalogue_max_on_channel :: "int list"

definition make_catalogue ::
  "(real list list \<Rightarrow> real list \<Rightarrow> real list list) \<Rightarrow> catalogueconstructor \<Rightarrow> error + catalogue" where
  "make_catalogue interp1d s =
     (case params_waveformextractor (info s) of
        None \<Rightarrow> Inl KeyError
      | Some (info_n_left, info_n_right) \<Rightarrow>
          (let n_left = info_n_left + 2;
               n_right = info_n_right - 2;
               labels = filter (\<lambda>k. 0 \<le> k) (cluster_labels s)
           in case some_waveforms s of
                None \<Rightarrow> Inl AttributeError
              | Some waveform_array \<Rightarrow>
                  (let full_width = fst (snd (shape waveform_array));
                       nchan = snd (snd (shape waveform_array))
                   in if full_width < 4 then Inl ValueError
                      else
                        (case catalogue_loop interp1d s waveform_array labels of
                           Inl e \<Rightarrow> Inl e
                         | Inr templates \<Rightarrow>
                             (case max_channels n_left (map fst templates) of
                                Inl e \<Rightarrow> Inl e
                              | Inr channels \<Rightarrow>
                                  Inr \<lparr>catalogue_n_left = n_left,
                                       catalogue_n_right = n_right,
                                       catalogue_peak_width = n_right - n_left,
                                       catalogue_cluster_labels = labels,
                                       centers0 = \<lparr>shape = (length labels, full_width - 4, nchan),
                                                   entries = map fst templates\<rparr>,
                                       centers1 = \<lparr>shape = (length labels, full_width - 4, nchan),
                                                   entries = map (\<lambda>t. fst (snd t)) templates\<rparr>,
                                       centers2 = \<lparr>shape = (length labels, full_width - 4, nchan),
                                                   entries = map (\<lambda>t. fst (snd (snd t))) templates\<rparr>,
                                       subsample_ratio = 20,
                                       interp_centers0 =
                                         \<lparr>shape = (length labels,
                                                   length (subsample_grid full_width), nchan),
                                          entries = map (\<lambda>t. snd (snd (snd t))) templates\<rparr>,
                                       label_to_index = zip labels [0..<length labels],
                                       catalogue_max_on_channel = channels\<rparr>)))))"

text \<open>The entries of an array fill its shape.\<close>

definition tensor_ok :: "tensor \<Rightarrow> bool" where
  "tensor_ok a \<longleftrightarrow>
     length (entries a) = fst (shape a) \<and>
     (\<forall>m\<in>set (entries a).
        length m = fst (snd (shape a)) \<and> (\<forall>r\<in>set m. length r = snd (snd (shape a))))"

text \<open>What one turn of the catalogue loop stores, and the shape of each array.\<close>

definition templates_of ::
  "nat \<Rightarrow> nat \<Rightarrow> waveforms
     \<Rightarrow> real list list \<times> real list list \<times> real list list \<times> real list list \<Rightarrow> bool" where
  "templates_of full_width nchan wf0 t \<longleftrightarrow>
     wf0 \<noteq> [] \<and>
     fst t = trim2 (median_axis0 full_width nchan wf0) \<and>
     fst (snd t) = trim2 (median_axis0 full_width nchan
                            (map (central_difference full_width nchan) wf0)) \<and>
     fst (snd (snd t)) = trim2 (median_axis0 full_width nchan
                            (map (central_difference full_width nchan)
                               (map (central_difference full_width nchan) wf0))) \<and>
     length (snd (snd (snd t))) = 20 * (full_width - 4) \<and>
     (\<forall>r\<in>set (snd (snd (snd t))). length r = nchan)"

section \<open>Facts about the rebuild\<close>

lemma set_np_unique: "set (np_unique xs) = set xs"
  by (simp add: np_unique_def)

lemma distinct_np_unique: "distinct (np_unique xs)"
  by (simp add: np_unique_def)

lemma np_unique_empty_iff: "np_unique xs = [] \<longleftrightarrow> xs = []"
  using set_np_unique [of xs] by (metis set_empty)

lemma cluster_label_previous_cell_label:
  "cluster_label (previous_cell_label old c) = cluster_label c"
  by (simp add: previous_cell_label_def split: option.splits)

lemma nb_peak_previous_cell_label:
  "nb_peak (previous_cell_label old c) = nb_peak c"
  by (simp add: previous_cell_label_def split: option.splits)

lemma map_cluster_label_new_table:
  "map cluster_label (new_cluster_table previous ps) = np_unique (map label ps)"
  by (cases previous)
     (simp_all add: new_cluster_table_def comp_def fresh_cluster_def
        cluster_label_previous_cell_label)

lemma map_nb_peak_new_table:
  "map nb_peak (new_cluster_table previous ps) =
     map (count_label ps) (np_unique (map label ps))"
  by (cases previous)
     (simp_all add: new_cluster_table_def comp_def fresh_cluster_def
        nb_peak_previous_cell_label)

lemma new_table_empty_iff: "new_cluster_table previous ps = [] \<longleftrightarrow> ps = []"
proof -
  have "new_cluster_table previous ps = [] \<longleftrightarrow>
          map cluster_label (new_cluster_table previous ps) = []"
    by simp
  also have "\<dots> \<longleftrightarrow> ps = []"
    by (simp add: map_cluster_label_new_table np_unique_empty_iff)
  finally show ?thesis .
qed

lemma on_new_cluster_stores:
  assumes "all_peaks s = Some ps" and "ps \<noteq> []"
  shows "clusters (on_new_cluster s) = Some (new_cluster_table (clusters s) ps)"
  using assms by (simp add: on_new_cluster_def Let_def new_table_empty_iff)

lemma count_label_mset: "count_label ps k = int (count (mset (map label ps)) k)"
  by (induction ps) (auto simp: count_label_def)

lemma sum_counts_distinct:
  assumes "distinct ks" and "set ks = set xs"
  shows "(\<Sum>k\<leftarrow>ks. int (count (mset xs) k)) = int (length xs)"
proof -
  have "(\<Sum>k\<leftarrow>ks. int (count (mset xs) k)) = (\<Sum>k\<in>set ks. int (count (mset xs) k))"
    using assms(1) by (simp add: sum_list_distinct_conv_sum_set)
  also have "\<dots> = int (\<Sum>k\<in>set_mset (mset xs). count (mset xs) k)"
    using assms(2) by simp
  also have "\<dots> = int (size (mset xs))"
    by (simp add: size_multiset_overloaded_eq)
  finally show ?thesis by simp
qed

lemma sum_count_label_unique:
  "(\<Sum>k\<leftarrow>np_unique (map label ps). count_label ps k) = int (length ps)"
  using sum_counts_distinct [OF distinct_np_unique set_np_unique, of "map label ps"]
  by (simp add: count_label_mset)

lemma filter_np_unique: "filter P (np_unique xs) = np_unique (filter P xs)"
  by (simp add: np_unique_def filter_sort remdups_filter)

lemma count_label_filter_nonneg:
  "0 \<le> k \<Longrightarrow> count_label (filter (\<lambda>p. 0 \<le> label p) ps) k = count_label ps k"
  by (induction ps) (auto simp: count_label_def)

lemma sum_count_label_nonneg:
  "(\<Sum>k\<leftarrow>filter (\<lambda>k. 0 \<le> k) (np_unique (map label ps)). count_label ps k)
     = int (length (filter (\<lambda>p. 0 \<le> label p) ps))"
proof -
  let ?qs = "filter (\<lambda>p. 0 \<le> label p) ps"
  have eq: "filter (\<lambda>k. 0 \<le> k) (np_unique (map label ps)) = np_unique (map label ?qs)"
    by (simp add: filter_np_unique filter_map comp_def)
  have "(\<Sum>k\<leftarrow>np_unique (map label ?qs). count_label ps k)
          = (\<Sum>k\<leftarrow>np_unique (map label ?qs). count_label ?qs k)"
    by (rule arg_cong [where f = sum_list], rule map_cong)
       (auto simp: set_np_unique count_label_filter_nonneg)
  then show ?thesis
    using sum_count_label_unique [of ?qs] by (simp add: eq)
qed

lemma filter_rows_nonneg:
  "map nb_peak (filter (\<lambda>c. 0 \<le> cluster_label c) (new_cluster_table previous ps))
     = map (count_label ps) (filter (\<lambda>k. 0 \<le> k) (np_unique (map label ps)))"
proof -
  have rows: "\<forall>c\<in>set (new_cluster_table previous ps). nb_peak c = count_label ps (cluster_label c)"
    by (cases previous)
       (auto simp: new_cluster_table_def fresh_cluster_def
          nb_peak_previous_cell_label cluster_label_previous_cell_label)
  have "map nb_peak (filter (\<lambda>c. 0 \<le> cluster_label c) (new_cluster_table previous ps))
          = map (\<lambda>c. count_label ps (cluster_label c))
              (filter (\<lambda>c. 0 \<le> cluster_label c) (new_cluster_table previous ps))"
    using rows by (intro map_cong) auto
  also have "\<dots> = map (count_label ps)
       (filter (\<lambda>k. 0 \<le> k) (map cluster_label (new_cluster_table previous ps)))"
    by (simp add: filter_map comp_def)
  finally show ?thesis
    by (simp add: map_cluster_label_new_table)
qed


section \<open>Claims about the rebuild\<close>

text \<open>
  C1, as stated, fails: \<^verbatim>\<open>np.unique(self.all_peaks['label'])\<close> keeps the reserved
  negative codes, so a peak table holding one peak of label \<open>-10\<close> is rebuilt into a
  table of one row with \<open>nb_peak = 1\<close>, while no peak has a label \<open>\<ge> 0\<close>.
\<close>

theorem on_new_cluster_reserved_row_counterexample:
  "clusters (on_new_cluster (blank\<lparr>all_peaks := Some [mk_peak 5 (- 10) 0]\<rparr>))
     = Some [\<lparr>cluster_label = - 10, cell_label = - 10, max_on_channel = - 1,
              max_peak_amplitude = NaN, waveform_rms = NaN, nb_peak = 1\<rparr>]
   \<and> \<not> rebuild_invariant_as_stated [mk_peak 5 (- 10) 0]
         [\<lparr>cluster_label = - 10, cell_label = - 10, max_on_channel = - 1,
           max_peak_amplitude = NaN, waveform_rms = NaN, nb_peak = 1\<rparr>]"
  by (simp add: on_new_cluster_def new_cluster_table_def np_unique_def fresh_cluster_def
      count_label_def mk_peak_def blank_def rebuild_invariant_as_stated_def)

text \<open>
  C1, amended: after a rebuild on a non-empty peak table the table has one row per
  distinct peak label, reserved codes included. The \<open>nb_peak\<close> column sums to the number
  of peaks and the \<open>cluster_label\<close> column is the set of peak labels; over the rows with
  \<open>cluster_label \<ge> 0\<close> the sum is the number of peaks with a label \<open>\<ge> 0\<close> and the labels
  are the distinct peak labels \<open>\<ge> 0\<close>.
\<close>

theorem on_new_cluster_counts:
  assumes "all_peaks s = Some ps" and "ps \<noteq> []"
  shows "\<exists>t. clusters (on_new_cluster s) = Some t \<and>
           sum_list (map nb_peak t) = int (length ps) \<and>
           set (map cluster_label t) = set (map label ps) \<and>
           sum_list (map nb_peak (filter (\<lambda>c. 0 \<le> cluster_label c) t))
             = int (length (filter (\<lambda>p. 0 \<le> label p) ps)) \<and>
           set (map cluster_label (filter (\<lambda>c. 0 \<le> cluster_label c) t))
             = set (filter (\<lambda>k. 0 \<le> k) (map label ps))"
proof -
  let ?t = "new_cluster_table (clusters s) ps"
  have stored: "clusters (on_new_cluster s) = Some ?t"
    using assms by (rule on_new_cluster_stores)
  have total: "sum_list (map nb_peak ?t) = int (length ps)"
    by (simp add: map_nb_peak_new_table sum_count_label_unique)
  have labels: "set (map cluster_label ?t) = set (map label ps)"
    by (simp only: map_cluster_label_new_table set_np_unique)
  have nonneg_total: "sum_list (map nb_peak (filter (\<lambda>c. 0 \<le> cluster_label c) ?t))
      = int (length (filter (\<lambda>p. 0 \<le> label p) ps))"
    by (simp only: filter_rows_nonneg sum_count_label_nonneg)
  have "map cluster_label (filter (\<lambda>c. 0 \<le> cluster_label c) ?t)
      = filter (\<lambda>k. 0 \<le> k) (map cluster_label ?t)"
    by (simp add: filter_map comp_def)
  then have nonneg_labels: "set (map cluster_label (filter (\<lambda>c. 0 \<le> cluster_label c) ?t))
      = set (filter (\<lambda>k. 0 \<le> k) (map label ps))"
    using labels by auto
  from stored total labels nonneg_total nonneg_labels show ?thesis
    by blast
qed

theorem on_new_cluster_counts_witness:
  "all_peaks (blank\<lparr>all_peaks := Some [mk_peak 5 (- 10) 0, mk_peak 9 0 0, mk_peak 12 0 1]\<rparr>)
     = Some [mk_peak 5 (- 10) 0, mk_peak 9 0 0, mk_peak 12 0 1]
   \<and> [mk_peak 5 (- 10) 0, mk_peak 9 0 0, mk_peak 12 0 1] \<noteq> []
   \<and> (\<exists>t. clusters (on_new_cluster
              (blank\<lparr>all_peaks := Some [mk_peak 5 (- 10) 0, mk_peak 9 0 0, mk_peak 12 0 1]\<rparr>))
            = Some t \<and>
          sum_list (map nb_peak t) = 3 \<and>
          set (map cluster_label t) = {- 10, 0} \<and>
          sum_list (map nb_peak (filter (\<lambda>c. 0 \<le> cluster_label c) t)) = 2 \<and>
          set (map cluster_label (filter (\<lambda>c. 0 \<le> cluster_label c) t)) = {0})"
proof -
  let ?ps = "[mk_peak 5 (- 10) 0, mk_peak 9 0 0, mk_peak 12 0 1]"
  have h1: "all_peaks (blank\<lparr>all_peaks := Some ?ps\<rparr>) = Some ?ps" by simp
  have h2: "?ps \<noteq> []" by simp
  show ?thesis
    using on_new_cluster_counts [OF h1 h2] h1 by (simp add: mk_peak_def insert_commute)
qed

text \<open>
  C4: in a rebuild performed while a previous table exists, a new row whose
  \<open>cluster_label\<close> is in the previous table has the \<open>cell_label\<close> of the first previous
  row with that label, and a new row whose label is not in the previous table has its
  own \<open>cluster_label\<close> as \<open>cell_label\<close>. The new table is stored whenever the peak table
  is not empty.
\<close>

theorem on_new_cluster_keeps_cell_label:
  assumes "all_peaks s = Some ps" and "clusters s = Some old"
  shows "(ps \<noteq> [] \<longrightarrow> clusters (on_new_cluster s) = Some (new_cluster_table (Some old) ps)) \<and>
         (\<forall>c\<in>set (new_cluster_table (Some old) ps).
            (\<forall>j<length old.
               cluster_label (old ! j) = cluster_label c \<and>
               (\<forall>i<j. cluster_label (old ! i) \<noteq> cluster_label c)
               \<longrightarrow> cell_label c = cell_label (old ! j)) \<and>
            (cluster_label c \<notin> set (map cluster_label old)
               \<longrightarrow> cell_label c = cluster_label c))"
proof (intro conjI impI ballI allI)
  assume "ps \<noteq> []"
  with assms show "clusters (on_new_cluster s) = Some (new_cluster_table (Some old) ps)"
    using on_new_cluster_stores [of s ps] by simp
next
  fix c j
  assume c: "c \<in> set (new_cluster_table (Some old) ps)"
    and j: "j < length old"
    and first: "cluster_label (old ! j) = cluster_label c \<and>
                (\<forall>i<j. cluster_label (old ! i) \<noteq> cluster_label c)"
  from c obtain k where ck: "c = previous_cell_label old (fresh_cluster ps k)"
    by (auto simp: new_cluster_table_def)
  have lab: "cluster_label c = k"
    by (simp add: ck cluster_label_previous_cell_label fresh_cluster_def)
  have "find (\<lambda>p. cluster_label (fresh_cluster ps k) = cluster_label p) old = Some (old ! j)"
    unfolding find_Some_iff using j first lab
    by (intro exI [of _ j]) (auto simp: fresh_cluster_def)
  then show "cell_label c = cell_label (old ! j)"
    by (simp add: ck previous_cell_label_def)
next
  fix c
  assume c: "c \<in> set (new_cluster_table (Some old) ps)"
    and absent: "cluster_label c \<notin> set (map cluster_label old)"
  from c obtain k where ck: "c = previous_cell_label old (fresh_cluster ps k)"
    by (auto simp: new_cluster_table_def)
  have lab: "cluster_label c = k"
    by (simp add: ck cluster_label_previous_cell_label fresh_cluster_def)
  have "find (\<lambda>p. cluster_label (fresh_cluster ps k) = cluster_label p) old = None"
    unfolding find_None_iff using absent lab by (auto simp: fresh_cluster_def)
  then show "cell_label c = cluster_label c"
    by (simp add: ck previous_cell_label_def fresh_cluster_def)
qed

theorem on_new_cluster_keeps_cell_label_witness:
  "all_peaks (blank\<lparr>all_peaks := Some [mk_peak 4 1 0, mk_peak 8 2 0],
                     clusters := Some [(fresh_cluster [] 1)\<lparr>cell_label := 7\<rparr>]\<rparr>)
     = Some [mk_peak 4 1 0, mk_peak 8 2 0]
   \<and> clusters (blank\<lparr>all_peaks := Some [mk_peak 4 1 0, mk_peak 8 2 0],
                      clusters := Some [(fresh_cluster [] 1)\<lparr>cell_label := 7\<rparr>]\<rparr>)
     = Some [(fresh_cluster [] 1)\<lparr>cell_label := 7\<rparr>]
   \<and> clusters (on_new_cluster
         (blank\<lparr>all_peaks := Some [mk_peak 4 1 0, mk_peak 8 2 0],
                 clusters := Some [(fresh_cluster [] 1)\<lparr>cell_label := 7\<rparr>]\<rparr>))
     = Some [\<lparr>cluster_label = 1, cell_label = 7, max_on_channel = - 1,
              max_peak_amplitude = NaN, waveform_rms = NaN, nb_peak = 1\<rparr>,
             \<lparr>cluster_label = 2, cell_label = 2, max_on_channel = - 1,
              max_peak_amplitude = NaN, waveform_rms = NaN, nb_peak = 1\<rparr>]"
proof -
  let ?ps = "[mk_peak 4 1 0, mk_peak 8 2 0]"
  let ?old = "[(fresh_cluster [] 1)\<lparr>cell_label := 7\<rparr>]"
  let ?s = "blank\<lparr>all_peaks := Some ?ps, clusters := Some ?old\<rparr>"
  have h1: "all_peaks ?s = Some ?ps" by simp
  have h2: "clusters ?s = Some ?old" by simp
  have table: "new_cluster_table (Some ?old) ?ps
      = [\<lparr>cluster_label = 1, cell_label = 7, max_on_channel = - 1,
          max_peak_amplitude = NaN, waveform_rms = NaN, nb_peak = 1\<rparr>,
         \<lparr>cluster_label = 2, cell_label = 2, max_on_channel = - 1,
          max_peak_amplitude = NaN, waveform_rms = NaN, nb_peak = 1\<rparr>]"
    by (simp add: new_cluster_table_def np_unique_def fresh_cluster_def
        previous_cell_label_def count_label_def mk_peak_def)
  from on_new_cluster_keeps_cell_label [OF h1 h2]
  have "clusters (on_new_cluster ?s) = Some (new_cluster_table (Some ?old) ?ps)"
    by simp
  with table h1 h2 show ?thesis by simp
qed

section \<open>Claim about the projector\<close>

text \<open>
  C3: with a fitted projector whose transform succeeds on an existing waveform sample,
  \<^verbatim>\<open>apply_projection\<close> should store the features and return. The code raises
  \<^verbatim>\<open>NameError\<close> instead, and the features stay absent: evaluated here on a
  constructor holding one waveform and a projector that maps every sample to one
  coordinate row.
\<close>

theorem apply_projection_raises_NameError:
  "apply_projection
     (blank\<lparr>some_waveforms := Some \<lparr>shape = (1, 1, 1), entries = [[[1]]]\<rparr>,
             projector := Some (\<lambda>w. Inr [[1]])\<rparr>)
   = Inl NameError"
  by (simp add: apply_projection_def)

lemma apply_projection_never_returns: "apply_projection s \<noteq> Inr s'"
  by (simp add: apply_projection_def split: option.splits sum.splits)

lemma apply_projection_unfitted: "projector s = None \<Longrightarrow> apply_projection s = Inl AssertionError"
  by (simp add: apply_projection_def)

section \<open>Facts about trashing\<close>

lemma length_set_label_where: "length (set_label_where k v ps) = length ps"
  by (simp add: set_label_where_def)

lemma count_set_label_where_same:
  "k \<noteq> v \<Longrightarrow> count_label (set_label_where k v ps) k = 0"
  by (auto simp: set_label_where_def count_label_def filter_empty_conv)

lemma count_set_label_where_other:
  "k' \<noteq> v \<Longrightarrow> k' \<noteq> k \<Longrightarrow>
     count_label (set_label_where k v ps) k' = count_label ps k'"
  by (induction ps) (auto simp: set_label_where_def count_label_def)

lemma count_set_label_where:
  "k' \<noteq> v \<Longrightarrow>
     count_label (set_label_where k v ps) k' = (if k' = k then 0 else count_label ps k')"
  by (simp add: count_set_label_where_same count_set_label_where_other)

lemma nth_set_label_where:
  "i < length ps \<Longrightarrow>
     label (set_label_where k v ps ! i) = (if label (ps ! i) = k then v else label (ps ! i))"
  by (simp add: set_label_where_def)

lemma length_trash_loop: "length (trash_loop n ks ps) = length ps"
  by (induction ks arbitrary: ps) (simp_all add: length_set_label_where)

lemma trash_loop_keeps_empty:
  "k \<noteq> - 1 \<Longrightarrow> count_label ps k = 0 \<Longrightarrow> count_label (trash_loop n ks ps) k = 0"
  by (induction ks arbitrary: ps) (simp_all add: count_set_label_where)

lemma trash_loop_empties:
  "k \<noteq> - 1 \<Longrightarrow> k \<in> set ks \<Longrightarrow> count_label ps k \<le> n \<Longrightarrow>
     count_label (trash_loop n ks ps) k = 0"
proof (induction ks arbitrary: ps)
  case Nil
  then show ?case by simp
next
  case (Cons k' ks)
  show ?case
  proof (cases "k' = k")
    case True
    with Cons.prems have "count_label (set_label_where k (- 1) ps) k = 0"
      by (simp add: count_set_label_where)
    with Cons.prems True show ?thesis
      by (simp add: trash_loop_keeps_empty)
  next
    case False
    let ?ps1 = "if count_label ps k' \<le> n then set_label_where k' (- 1) ps else ps"
    have same: "count_label ?ps1 k = count_label ps k"
      using Cons.prems(1) False by (simp add: count_set_label_where)
    have "k \<in> set ks" using Cons.prems(2) False by simp
    with Cons.IH [of ?ps1] Cons.prems(1,3) same
    have "count_label (trash_loop n ks ?ps1) k = 0" by simp
    then show ?thesis by simp
  qed
qed

lemma trash_loop_keeps_trash:
  "i < length ps \<Longrightarrow> label (ps ! i) = - 1 \<Longrightarrow> label (trash_loop n ks ps ! i) = - 1"
  by (induction ks arbitrary: ps)
     (simp_all add: length_set_label_where nth_set_label_where)

lemma trash_loop_forces:
  "i < length ps \<Longrightarrow> label (ps ! i) = k \<Longrightarrow> k \<in> set ks \<Longrightarrow> count_label ps k \<le> n \<Longrightarrow>
     label (trash_loop n ks ps ! i) = - 1"
proof (induction ks arbitrary: ps)
  case Nil
  then show ?case by simp
next
  case (Cons k' ks)
  let ?ps1 = "if count_label ps k' \<le> n then set_label_where k' (- 1) ps else ps"
  have len: "i < length ?ps1"
    using Cons.prems(1) by (simp add: length_set_label_where)
  show ?case
  proof (cases "k = - 1 \<or> k' = k")
    case True
    then have "label (?ps1 ! i) = - 1"
      using Cons.prems(1,2,4) by (auto simp: nth_set_label_where)
    with len have "label (trash_loop n ks ?ps1 ! i) = - 1"
      by (rule trash_loop_keeps_trash)
    then show ?thesis by simp
  next
    case False
    then have k: "k \<noteq> - 1" and k': "k' \<noteq> k" by simp_all
    have lab: "label (?ps1 ! i) = k"
      using Cons.prems(1,2) k' by (simp add: nth_set_label_where)
    have cnt: "count_label ?ps1 k \<le> n"
      using Cons.prems(4) k k' by (simp add: count_set_label_where)
    have "k \<in> set ks" using Cons.prems(3) k' by simp
    with Cons.IH [OF len lab _ cnt]
    have "label (trash_loop n ks ?ps1 ! i) = - 1" by simp
    then show ?thesis by simp
  qed
qed

lemma count_label_zero_iff: "count_label ps k = 0 \<longleftrightarrow> k \<notin> set (map label ps)"
  by (induction ps) (auto simp: count_label_def)

section \<open>Claim about trashing\<close>

text \<open>
  C6, as stated, fails for the cluster whose label is the code the loop writes: peaks
  of label \<open>-1\<close> are relabelled to \<open>-1\<close>, so they still carry their label. Here the
  table, as rebuilt from three peaks of labels \<open>-1, 0, 0\<close>, has the row of label \<open>-1\<close>
  with \<open>nb_peak = 1\<close>; after \<^verbatim>\<open>trash_small_cluster(1)\<close> the peak table is unchanged
  and one peak carries the label \<open>-1\<close>.
\<close>

theorem trash_small_cluster_trash_row_counterexample:
  "map cluster_label (new_cluster_table None [mk_peak 3 (- 1) 0, mk_peak 7 0 0, mk_peak 9 0 0])
     = [- 1, 0]
   \<and> map nb_peak (new_cluster_table None [mk_peak 3 (- 1) 0, mk_peak 7 0 0, mk_peak 9 0 0])
     = [1, 2]
   \<and> map_sum id all_peaks
       (trash_small_cluster 1
          (blank\<lparr>all_peaks := Some [mk_peak 3 (- 1) 0, mk_peak 7 0 0, mk_peak 9 0 0],
                  clusters := Some (new_cluster_table None
                     [mk_peak 3 (- 1) 0, mk_peak 7 0 0, mk_peak 9 0 0])\<rparr>))
     = Inr (Some [mk_peak 3 (- 1) 0, mk_peak 7 0 0, mk_peak 9 0 0])
   \<and> count_label [mk_peak 3 (- 1) 0, mk_peak 7 0 0, mk_peak 9 0 0] (- 1) = 1"
  by (simp add: trash_small_cluster_def cluster_labels_def on_new_cluster_def
      new_cluster_table_def np_unique_def fresh_cluster_def count_label_def mk_peak_def
      set_label_where_def previous_cell_label_def)

text \<open>
  C6, amended: for every row of the table whose \<open>nb_peak\<close> is the number of peaks
  carrying its label, is at most \<open>n\<close>, and whose label is not \<open>-1\<close>,
  \<^verbatim>\<open>trash_small_cluster(n)\<close> returns, no peak carries that label afterwards, every
  peak that carried it has the label \<open>-1\<close> (the literal the code writes), the peak
  table keeps its length, and the result is the rebuild of the relabelled peak table, in
  which the label has no row.
\<close>

theorem trash_small_cluster_empties:
  assumes "all_peaks s = Some ps" and "clusters s = Some t" and "c \<in> set t"
    and "nb_peak c = count_label ps (cluster_label c)"
    and "nb_peak c \<le> n" and "cluster_label c \<noteq> - 1"
  shows "\<exists>s' ps'. trash_small_cluster n s = Inr s' \<and> all_peaks s' = Some ps' \<and>
           length ps' = length ps \<and>
           count_label ps' (cluster_label c) = 0 \<and>
           (\<forall>i<length ps. label (ps ! i) = cluster_label c \<longrightarrow> label (ps' ! i) = - 1) \<and>
           s' = on_new_cluster (s\<lparr>all_peaks := Some ps'\<rparr>) \<and>
           (ps \<noteq> [] \<longrightarrow> (\<exists>t'. clusters s' = Some t' \<and>
                                cluster_label c \<notin> set (map cluster_label t')))"
proof -
  let ?k = "cluster_label c"
  let ?ks = "map cluster_label t"
  let ?ps' = "trash_loop n ?ks ps"
  let ?s1 = "s\<lparr>all_peaks := Some ?ps'\<rparr>"
  let ?s' = "on_new_cluster ?s1"
  have ks: "cluster_labels s = ?ks"
    using assms(2) by (simp add: cluster_labels_def)
  have mem: "?k \<in> set ?ks" using assms(3) by simp
  then have "?ks \<noteq> []" by auto
  then obtain k0 ks0 where split: "?ks = k0 # ks0"
    by (cases ?ks) auto
  have run: "trash_small_cluster n s = Inr ?s'"
    using assms(1) ks split by (simp add: trash_small_cluster_def)
  have peaks: "all_peaks ?s' = Some ?ps'"
    by (simp add: on_new_cluster_def Let_def)
  have len: "length ?ps' = length ps"
    by (rule length_trash_loop)
  have small: "count_label ps ?k \<le> n"
    using assms(4,5) by simp
  have gone: "count_label ?ps' ?k = 0"
    using assms(6) mem small by (rule trash_loop_empties)
  have forced: "\<forall>i<length ps. label (ps ! i) = ?k \<longrightarrow> label (?ps' ! i) = - 1"
    using mem small by (auto intro: trash_loop_forces)
  have table: "ps \<noteq> [] \<longrightarrow>
      (\<exists>t'. clusters ?s' = Some t' \<and> ?k \<notin> set (map cluster_label t'))"
  proof
    assume "ps \<noteq> []"
    then have ne: "?ps' \<noteq> []" using len by (metis length_0_conv)
    have "all_peaks ?s1 = Some ?ps'" by simp
    from on_new_cluster_stores [OF this ne]
    have st: "clusters ?s' = Some (new_cluster_table (clusters ?s1) ?ps')" .
    have "?k \<notin> set (map label ?ps')"
      using gone count_label_zero_iff [of ?ps' ?k] by blast
    then have "?k \<notin> set (map cluster_label (new_cluster_table (clusters ?s1) ?ps'))"
      by (simp add: map_cluster_label_new_table set_np_unique)
    with st show "\<exists>t'. clusters ?s' = Some t' \<and> ?k \<notin> set (map cluster_label t')"
      by blast
  qed
  from run peaks len gone forced table show ?thesis
    by blast
qed

theorem trash_small_cluster_empties_witness:
  "map_sum id all_peaks
     (trash_small_cluster 1
        (blank\<lparr>all_peaks := Some [mk_peak 3 5 0, mk_peak 7 0 0, mk_peak 9 0 0],
                clusters := Some (new_cluster_table None
                   [mk_peak 3 5 0, mk_peak 7 0 0, mk_peak 9 0 0])\<rparr>))
     = Inr (Some [mk_peak 3 (- 1) 0, mk_peak 7 0 0, mk_peak 9 0 0])
   \<and> map_sum id clusters
     (trash_small_cluster 1
        (blank\<lparr>all_peaks := Some [mk_peak 3 5 0, mk_peak 7 0 0, mk_peak 9 0 0],
                clusters := Some (new_cluster_table None
                   [mk_peak 3 5 0, mk_peak 7 0 0, mk_peak 9 0 0])\<rparr>))
     = Inr (Some (new_cluster_table
          (Some (new_cluster_table None [mk_peak 3 5 0, mk_peak 7 0 0, mk_peak 9 0 0]))
          [mk_peak 3 (- 1) 0, mk_peak 7 0 0, mk_peak 9 0 0]))"
proof -
  let ?ps = "[mk_peak 3 5 0, mk_peak 7 0 0, mk_peak 9 0 0]"
  let ?t = "new_cluster_table None ?ps"
  let ?s = "blank\<lparr>all_peaks := Some ?ps, clusters := Some ?t\<rparr>"
  let ?c = "fresh_cluster ?ps 5"
  have t: "?t = [fresh_cluster ?ps 0, ?c]"
    by (simp add: new_cluster_table_def np_unique_def mk_peak_def)
  have h1: "all_peaks ?s = Some ?ps" by simp
  have h2: "clusters ?s = Some ?t" by simp
  have h3: "?c \<in> set ?t" by (simp add: t)
  have h4: "nb_peak ?c = count_label ?ps (cluster_label ?c)"
    by (simp add: fresh_cluster_def)
  have h5: "nb_peak ?c \<le> 1"
    by (simp add: fresh_cluster_def count_label_def mk_peak_def)
  have h6: "cluster_label ?c \<noteq> - 1"
    by (simp add: fresh_cluster_def)
  from trash_small_cluster_empties [OF h1 h2 h3 h4 h5 h6]
  have "\<exists>s'. trash_small_cluster 1 ?s = Inr s'"
    by blast
  then show ?thesis
    by (simp add: trash_small_cluster_def cluster_labels_def on_new_cluster_def
        new_cluster_table_def np_unique_def fresh_cluster_def count_label_def mk_peak_def
        set_label_where_def previous_cell_label_def)
qed

section \<open>Facts about the finalisation\<close>

lemma downstream_absent_reset: "downstream_absent (reset_waveform_and_features s)"
  by (simp add: downstream_absent_def reset_waveform_and_features_def)

lemma downstream_absent_on_new_cluster:
  "downstream_absent (on_new_cluster s) = downstream_absent s"
  by (simp add: downstream_absent_def on_new_cluster_def Let_def split: option.splits)

lemma all_peaks_on_new_cluster: "all_peaks (on_new_cluster s) = all_peaks s"
  by (simp add: on_new_cluster_def Let_def split: option.splits)

lemma on_new_cluster_empty:
  "all_peaks s = Some [] \<Longrightarrow> clusters (on_new_cluster s) = clusters s"
  by (simp add: on_new_cluster_def Let_def new_table_empty_iff)

lemma finalisation_result:
  "downstream_absent (on_new_cluster (reset_waveform_and_features (finalize_array s))) \<and>
   all_peaks (on_new_cluster (reset_waveform_and_features (finalize_array s)))
     = Some (appended_peaks s) \<and>
   (appended_peaks s \<noteq> [] \<longrightarrow>
      clusters (on_new_cluster (reset_waveform_and_features (finalize_array s)))
        = Some (new_cluster_table (clusters s) (appended_peaks s))) \<and>
   (appended_peaks s = [] \<longrightarrow>
      clusters (on_new_cluster (reset_waveform_and_features (finalize_array s)))
        = clusters s)"
proof -
  let ?s1 = "reset_waveform_and_features (finalize_array s)"
  have p: "all_peaks ?s1 = Some (appended_peaks s)"
    by (simp add: reset_waveform_and_features_def finalize_array_def)
  have c: "clusters ?s1 = clusters s"
    by (simp add: reset_waveform_and_features_def finalize_array_def)
  have "downstream_absent (on_new_cluster ?s1)"
    by (simp only: downstream_absent_on_new_cluster downstream_absent_reset)
  moreover have "all_peaks (on_new_cluster ?s1) = Some (appended_peaks s)"
    by (simp only: all_peaks_on_new_cluster p)
  moreover have "appended_peaks s \<noteq> [] \<longrightarrow>
      clusters (on_new_cluster ?s1) = Some (new_cluster_table (clusters s) (appended_peaks s))"
    using on_new_cluster_stores [OF p] c by simp
  moreover have "appended_peaks s = [] \<longrightarrow> clusters (on_new_cluster ?s1) = clusters s"
    using on_new_cluster_empty [of ?s1] p c by simp
  ultimately show ?thesis by blast
qed

lemma label_new_peaks: "p \<in> set (new_peaks u g xs) \<Longrightarrow> label p = u"
  by (auto simp: new_peaks_def)

lemma one_chunk_keeps:
  "clusters (signalprocessor_one_chunk u outcome g d s) = clusters s \<and>
   chunksize (signalprocessor_one_chunk u outcome g d s) = chunksize s \<and>
   dataio (signalprocessor_one_chunk u outcome g d s) = dataio s \<and>
   (\<forall>p\<in>set (appended_peaks (signalprocessor_one_chunk u outcome g d s)).
      label p = u \<or> p \<in> set (appended_peaks s))"
  by (cases outcome) (auto simp: append_chunk_def split: option.splits dest: label_new_peaks)

lemma fold_one_chunk_keeps:
  "clusters (fold (\<lambda>outcome. signalprocessor_one_chunk u outcome g d) outs s) = clusters s \<and>
   (\<forall>p\<in>set (appended_peaks (fold (\<lambda>outcome. signalprocessor_one_chunk u outcome g d) outs s)).
      label p = u \<or> p \<in> set (appended_peaks s))"
proof (induction outs arbitrary: s)
  case Nil
  then show ?case by simp
next
  case (Cons outcome outs)
  let ?s1 = "signalprocessor_one_chunk u outcome g d s"
  from Cons.IH [of ?s1] one_chunk_keeps [of u outcome g d s]
  show ?case by (simp only: fold_simps) blast
qed

lemma one_segment_keeps:
  assumes "run_signalprocessor_loop_one_segment fp u stream g duration d s = Inr s1"
  shows "clusters s1 = clusters s \<and>
         (\<forall>p\<in>set (appended_peaks s1). label p = u \<or> p \<in> set (appended_peaks s))"
proof -
  let ?s0 = "s\<lparr>info := (info s)\<lparr>processed_length :=
      Some (min (py_int (fp duration (sample_rate (dataio s)))) (get_segment_length (dataio s) g)
            - min (py_int (fp duration (sample_rate (dataio s)))) (get_segment_length (dataio s) g)
                mod chunksize s)\<rparr>\<rparr>"
  from assms have "s1 = fold (\<lambda>outcome. signalprocessor_one_chunk u outcome g d) (stream g) ?s0"
    by (auto simp: run_signalprocessor_loop_one_segment_def Let_def split: if_splits)
  with fold_one_chunk_keeps [of u g d "stream g" ?s0] show ?thesis
    by simp
qed

lemma run_segments_keeps:
  "run_segments fp u stream duration d segs s = Inr s1 \<Longrightarrow>
     clusters s1 = clusters s \<and>
     (\<forall>p\<in>set (appended_peaks s1). label p = u \<or> p \<in> set (appended_peaks s))"
proof (induction segs arbitrary: s)
  case Nil
  then show ?case by simp
next
  case (Cons g segs)
  from Cons.prems obtain s0 where
    one: "run_signalprocessor_loop_one_segment fp u stream (int g) duration d s = Inr s0" and
    rest: "run_segments fp u stream duration d segs s0 = Inr s1"
    by (auto split: sum.splits)
  from one_segment_keeps [OF one] Cons.IH [OF rest] show ?case
    by auto
qed

lemma redetect_one_chunk_keeps:
  "clusters (redetect_one_chunk u g chunk_peaks s) = clusters s \<and>
   (\<forall>p\<in>set (appended_peaks (redetect_one_chunk u g chunk_peaks s)).
      label p = u \<or> p \<in> set (appended_peaks s))"
  by (auto simp: redetect_one_chunk_def append_chunk_def split: option.splits
      dest: label_new_peaks)

lemma redetect_one_segment_keeps:
  "clusters (redetect_one_segment u detector g s) = clusters s \<and>
   (\<forall>p\<in>set (appended_peaks (redetect_one_segment u detector g s)).
      label p = u \<or> p \<in> set (appended_peaks s))"
proof -
  have "clusters (fold (redetect_one_chunk u g') cs s) = clusters s \<and>
        (\<forall>p\<in>set (appended_peaks (fold (redetect_one_chunk u g') cs s)).
           label p = u \<or> p \<in> set (appended_peaks s))" for g' cs
  proof (induction cs arbitrary: s)
    case Nil
    then show ?case by simp
  next
    case (Cons c cs)
    from Cons.IH [of "redetect_one_chunk u g' c s"] redetect_one_chunk_keeps [of u g' c s]
    show ?case by (simp only: fold_simps) blast
  qed
  then show ?thesis unfolding redetect_one_segment_def by blast
qed

lemma redetect_segments_keeps:
  "clusters (fold (redetect_one_segment u detector) segs s) = clusters s \<and>
   (\<forall>p\<in>set (appended_peaks (fold (redetect_one_segment u detector) segs s)).
      label p = u \<or> p \<in> set (appended_peaks s))"
proof (induction segs arbitrary: s)
  case Nil
  then show ?case by simp
next
  case (Cons g segs)
  from Cons.IH [of "redetect_one_segment u detector g s"]
    redetect_one_segment_keeps [of u detector g s]
  show ?case by (simp only: fold_simps) blast
qed

lemma np_unique_constant:
  assumes "xs \<noteq> []" and "\<forall>x\<in>set xs. x = u"
  shows "np_unique xs = [u]"
proof -
  from assms(1) obtain x where x: "x \<in> set xs"
    by (cases xs) auto
  with assms(2) have "x = u" by (rule bspec)
  with x have "u \<in> set xs" by simp
  moreover have "set xs \<subseteq> {u}" using assms(2) by (simp add: subset_iff)
  ultimately have s: "set (np_unique xs) = {u}"
    unfolding set_np_unique by (intro equalityI) simp_all
  have "length (np_unique xs) = card (set (np_unique xs))"
    using distinct_np_unique [of xs] by (simp add: distinct_card)
  then have "length (np_unique xs) = 1" by (simp add: s)
  then obtain x where "np_unique xs = [x]"
    by (cases "np_unique xs") auto
  with s show ?thesis by simp
qed

section \<open>Claim about the reset after peak detection\<close>

text \<open>
  C9, as stated, fails when the run detects no peak: the rebuild stores a table only
  when it has a row (\<^verbatim>\<open>if clusters.size>0\<close>), so the previous table stays. Here the
  constructor holds two peaks of label \<open>0\<close> and their table; the new detector reports
  nothing on the one chunk of the segment. Afterwards the peak table is empty and the
  cluster table still has the row of label \<open>0\<close> with \<open>nb_peak = 2\<close>, whereas the table
  of an empty peak set has no row.
\<close>

theorem re_detect_peak_no_peak_counterexample:
  "all_peaks (re_detect_peak (- 10) (\<lambda>seg_num. [None])
      (blank\<lparr>all_peaks := Some [mk_peak 4 0 0, mk_peak 8 0 0],
              clusters := Some [\<lparr>cluster_label = 0, cell_label = 0, max_on_channel = - 1,
                 max_peak_amplitude = NaN, waveform_rms = NaN, nb_peak = 2\<rparr>]\<rparr>))
     = Some []
   \<and> clusters (re_detect_peak (- 10) (\<lambda>seg_num. [None])
      (blank\<lparr>all_peaks := Some [mk_peak 4 0 0, mk_peak 8 0 0],
              clusters := Some [\<lparr>cluster_label = 0, cell_label = 0, max_on_channel = - 1,
                 max_peak_amplitude = NaN, waveform_rms = NaN, nb_peak = 2\<rparr>]\<rparr>))
     = Some [\<lparr>cluster_label = 0, cell_label = 0, max_on_channel = - 1,
              max_peak_amplitude = NaN, waveform_rms = NaN, nb_peak = 2\<rparr>]
   \<and> new_cluster_table
        (Some [\<lparr>cluster_label = 0, cell_label = 0, max_on_channel = - 1,
                max_peak_amplitude = NaN, waveform_rms = NaN, nb_peak = 2\<rparr>]) []
     = []"
  by (simp add: re_detect_peak_def initialize_array_def finalize_array_def
      reset_waveform_and_features_def on_new_cluster_def new_cluster_table_def np_unique_def
      redetect_one_segment_def redetect_one_chunk_def blank_def blank_dataio_def)

text \<open>
  C9, amended: after \<^verbatim>\<open>run_signalprocessor\<close> returns, and after
  \<^verbatim>\<open>re_detect_peak\<close>, the working index selection, waveform tensor, features,
  channel attribution, noise index, noise snippets, noise features and the four metrics
  are all absent; the peak table is the appended records, which carry the unclassified
  label when the run appended them; and, when the peak table is not empty, the cluster
  table is the rebuild from it (one row per label, the previous table giving the
  \<open>cell_label\<close>). With an empty peak table the previous cluster table is left as it was.
\<close>

theorem signalprocessor_resets_downstream:
  assumes "run_signalprocessor float_product u stream duration detect_peak s = Inr s1"
    and "s2 = re_detect_peak u detector s"
  shows "downstream_absent s1 \<and>
         (\<exists>ps. all_peaks s1 = Some ps \<and>
            (\<forall>p\<in>set ps. label p = u \<or> p \<in> set (appended_peaks s)) \<and>
            (ps \<noteq> [] \<longrightarrow> clusters s1 = Some (new_cluster_table (clusters s) ps)) \<and>
            (ps = [] \<longrightarrow> clusters s1 = clusters s)) \<and>
         downstream_absent s2 \<and>
         (\<exists>ps. all_peaks s2 = Some ps \<and>
            (\<forall>p\<in>set ps. label p = u) \<and>
            (ps \<noteq> [] \<longrightarrow> clusters s2 = Some (new_cluster_table (clusters s) ps) \<and>
                         map cluster_label (new_cluster_table (clusters s) ps) = [u] \<and>
                         map nb_peak (new_cluster_table (clusters s) ps) = [int (length ps)]) \<and>
            (ps = [] \<longrightarrow> clusters s2 = clusters s))"
proof -
  from assms(1) obtain s0 where
    segs: "run_segments float_product u stream duration detect_peak
             [0..<nb_segment (dataio s)] s = Inr s0"
    and s1: "s1 = on_new_cluster (reset_waveform_and_features (finalize_array s0))"
    by (auto simp: run_signalprocessor_def finalize_signalprocessor_loop_def split: sum.splits)
  from run_segments_keeps [OF segs]
  have c0: "clusters s0 = clusters s"
    and l0: "\<forall>p\<in>set (appended_peaks s0). label p = u \<or> p \<in> set (appended_peaks s)"
    by simp_all
  have run: "downstream_absent s1 \<and>
         (\<exists>ps. all_peaks s1 = Some ps \<and>
            (\<forall>p\<in>set ps. label p = u \<or> p \<in> set (appended_peaks s)) \<and>
            (ps \<noteq> [] \<longrightarrow> clusters s1 = Some (new_cluster_table (clusters s) ps)) \<and>
            (ps = [] \<longrightarrow> clusters s1 = clusters s))"
    using finalisation_result [of s0] c0 l0 unfolding s1 by auto
  let ?i = "initialize_array s"
  let ?f = "fold (redetect_one_segment u detector) [0..<nb_segment (dataio ?i)] ?i"
  have s2: "s2 = on_new_cluster (reset_waveform_and_features (finalize_array ?f))"
    using assms(2) by (simp add: re_detect_peak_def Let_def)
  have ci: "clusters ?i = clusters s" and ai: "appended_peaks ?i = []"
    by (simp_all add: initialize_array_def)
  from redetect_segments_keeps [of u detector "[0..<nb_segment (dataio ?i)]" ?i]
  have cf: "clusters ?f = clusters s" and lf: "\<forall>p\<in>set (appended_peaks ?f). label p = u"
    using ci ai by simp_all
  have rows: "appended_peaks ?f \<noteq> [] \<longrightarrow>
      map cluster_label (new_cluster_table (clusters s) (appended_peaks ?f)) = [u] \<and>
      map nb_peak (new_cluster_table (clusters s) (appended_peaks ?f))
        = [int (length (appended_peaks ?f))]"
  proof
    assume ne: "appended_peaks ?f \<noteq> []"
    have "np_unique (map label (appended_peaks ?f)) = [u]"
      using ne lf by (intro np_unique_constant) auto
    moreover have "count_label (appended_peaks ?f) u = int (length (appended_peaks ?f))"
      using lf by (simp add: count_label_def)
    ultimately show "map cluster_label (new_cluster_table (clusters s) (appended_peaks ?f)) = [u] \<and>
      map nb_peak (new_cluster_table (clusters s) (appended_peaks ?f))
        = [int (length (appended_peaks ?f))]"
      by (simp add: map_cluster_label_new_table map_nb_peak_new_table)
  qed
  have redetect: "downstream_absent s2 \<and>
         (\<exists>ps. all_peaks s2 = Some ps \<and>
            (\<forall>p\<in>set ps. label p = u) \<and>
            (ps \<noteq> [] \<longrightarrow> clusters s2 = Some (new_cluster_table (clusters s) ps) \<and>
                         map cluster_label (new_cluster_table (clusters s) ps) = [u] \<and>
                         map nb_peak (new_cluster_table (clusters s) ps) = [int (length ps)]) \<and>
            (ps = [] \<longrightarrow> clusters s2 = clusters s))"
    using finalisation_result [of ?f] cf lf rows unfolding s2 by auto
  from run redetect show ?thesis by blast
qed

theorem signalprocessor_resets_downstream_witness:
  "map_sum id all_peaks
     (run_signalprocessor (\<lambda>x y. x * y) (- 10)
        (\<lambda>seg_num. [Warmup, Conditioned (Some [100, 200])]) 1 True
        (blank\<lparr>some_features := Some [[1]]\<rparr>))
     = Inr (Some [mk_peak 100 (- 10) 0, mk_peak 200 (- 10) 0])
   \<and> map_sum id clusters
     (run_signalprocessor (\<lambda>x y. x * y) (- 10)
        (\<lambda>seg_num. [Warmup, Conditioned (Some [100, 200])]) 1 True
        (blank\<lparr>some_features := Some [[1]]\<rparr>))
     = Inr (Some [\<lparr>cluster_label = - 10, cell_label = - 10, max_on_channel = - 1,
                   max_peak_amplitude = NaN, waveform_rms = NaN, nb_peak = 2\<rparr>])
   \<and> map_sum id downstream_absent
     (run_signalprocessor (\<lambda>x y. x * y) (- 10)
        (\<lambda>seg_num. [Warmup, Conditioned (Some [100, 200])]) 1 True
        (blank\<lparr>some_features := Some [[1]]\<rparr>))
     = Inr True
   \<and> all_peaks (re_detect_peak (- 10) (\<lambda>seg_num. [Some [150]])
        (blank\<lparr>some_features := Some [[1]]\<rparr>))
     = Some [mk_peak 150 (- 10) 0]
   \<and> downstream_absent (re_detect_peak (- 10) (\<lambda>seg_num. [Some [150]])
        (blank\<lparr>some_features := Some [[1]]\<rparr>))"
proof -
  let ?s = "blank\<lparr>some_features := Some [[1]]\<rparr>"
  let ?stream = "\<lambda>seg_num::int. [Warmup, Conditioned (Some [100, 200])]"
  let ?detector = "\<lambda>seg_num::int. [Some [150::int]]"
  have ev: "run_signalprocessor (\<lambda>x y. x * y) (- 10) ?stream 1 True ?s
      = Inr (finalize_signalprocessor_loop
               (append_chunk (new_peaks (- 10) 0 [100, 200])
                  (?s\<lparr>info := (info ?s)\<lparr>processed_length := Some 0\<rparr>\<rparr>)))"
    by (simp add: run_signalprocessor_def run_signalprocessor_loop_one_segment_def
        py_int_def blank_def blank_dataio_def)
  note inst = signalprocessor_resets_downstream [OF ev refl, of ?detector]
  have peaks: "all_peaks (finalize_signalprocessor_loop
               (append_chunk (new_peaks (- 10) 0 [100, 200])
                  (?s\<lparr>info := (info ?s)\<lparr>processed_length := Some 0\<rparr>\<rparr>)))
      = Some [mk_peak 100 (- 10) 0, mk_peak 200 (- 10) 0]"
    by (simp add: finalize_signalprocessor_loop_def all_peaks_on_new_cluster
        reset_waveform_and_features_def finalize_array_def append_chunk_def new_peaks_def
        mk_peak_def blank_def)
  have table: "new_cluster_table (clusters ?s) [mk_peak 100 (- 10) 0, mk_peak 200 (- 10) 0]
      = [\<lparr>cluster_label = - 10, cell_label = - 10, max_on_channel = - 1,
          max_peak_amplitude = NaN, waveform_rms = NaN, nb_peak = 2\<rparr>]"
    by (simp add: new_cluster_table_def np_unique_def fresh_cluster_def count_label_def
        mk_peak_def blank_def)
  have redetect: "all_peaks (re_detect_peak (- 10) ?detector ?s) = Some [mk_peak 150 (- 10) 0]"
    by (simp add: re_detect_peak_def all_peaks_on_new_cluster initialize_array_def
        finalize_array_def reset_waveform_and_features_def redetect_one_segment_def
        redetect_one_chunk_def append_chunk_def new_peaks_def mk_peak_def blank_def
        blank_dataio_def)
  from inst peaks table redetect show ?thesis
    by (simp add: ev)
qed

section \<open>Facts about the noise sampling\<close>

lemma noise_one_segment_shape:
  assumes "noise_one_segment l choice n_left n_right n g s = Inr idx"
  shows "int (length idx) = n \<and> (\<forall>r\<in>set idx. label r = l \<and> segment r = g)"
proof -
  from assms obtain possible draws where
    idx: "idx = map (\<lambda>d. \<lparr>index = int (possible ! d), label = l, segment = g\<rparr>) (sort draws)"
    and len: "int (length draws) = n"
    by (auto simp: noise_one_segment_def Let_def split: option.splits if_splits)
  from idx len show ?thesis by auto
qed

lemma noise_segments_shape:
  "noise_segments l choice n_left n_right n segs s = Inr idx \<Longrightarrow>
     int (length idx) = int (length segs) * n \<and>
     (\<forall>r\<in>set idx. label r = l) \<and>
     map segment idx = concat (map (\<lambda>g. replicate (nat n) (int g)) segs)"
proof (induction segs arbitrary: idx)
  case Nil
  then show ?case by simp
next
  case (Cons g segs)
  from Cons.prems obtain first others where
    one: "noise_one_segment l choice n_left n_right n (int g) s = Inr first"
    and rest: "noise_segments l choice n_left n_right n segs s = Inr others"
    and idx: "idx = first @ others"
    by (auto split: sum.splits)
  from noise_one_segment_shape [OF one]
  have f1: "int (length first) = n" and f2: "\<forall>r\<in>set first. label r = l \<and> segment r = int g"
    by simp_all
  have seg: "map segment first = replicate (nat n) (int g)"
  proof -
    have "map segment first = replicate (length first) (int g)"
      using f2 by (simp add: map_replicate_const [symmetric] cong: map_cong)
    moreover have "length first = nat n" using f1 by simp
    ultimately show ?thesis by simp
  qed
  from Cons.IH [OF rest] f1 f2 seg idx show ?case
    by (auto simp: algebra_simps)
qed

lemma read_snippets_length:
  "read_snippets reader n_left w idx = Inr snippets \<Longrightarrow> length snippets = length idx"
  by (induction idx arbitrary: snippets) (auto simp: Let_def split: sum.splits)

lemma nth_concat_replicate:
  "i < m * n \<Longrightarrow> concat (map (\<lambda>g. replicate n (int g)) [0..<m]) ! i = int (i div n)"
proof (induction m)
  case 0
  then show ?case by simp
next
  case (Suc m)
  have len: "length (concat (map (\<lambda>g. replicate n (int g)) [0..<m])) = m * n"
    by (induction m) simp_all
  show ?case
  proof (cases "i < m * n")
    case True
    with Suc.IH len show ?thesis by (simp add: nth_append)
  next
    case False
    with Suc.prems have lo: "m * n \<le> i" and hi: "i < m * n + n" by simp_all
    then have "n > 0" by (cases n) auto
    have "i div n = m"
      using lo hi by (intro div_nat_eqI) (simp_all add: mult.commute)
    with lo hi len show ?thesis by (simp add: nth_append)
  qed
qed
section \<open>Claims about the noise sampling\<close>

text \<open>
  C10: when \<^verbatim>\<open>extract_some_noise(nb_snippet)\<close> returns on a dataset of \<open>S\<close>
  segments, \<open>S \<ge> 1\<close>, and the number of index records and the number of snippets are
  both \<open>(nb_snippet div S) * S\<close>, which is less than \<open>nb_snippet\<close> when \<open>S\<close> does not
  divide it. Every record has the noise label, and the record at position \<open>i\<close> has the
  number of the segment it was drawn in, \<open>i div (nb_snippet div S)\<close>.
\<close>

theorem extract_some_noise_count:
  assumes "extract_some_noise l choice reader nb_snippet s = Inr s'"
  shows "1 \<le> nb_segment (dataio s) \<and>
         (\<exists>idx snippets.
            some_noise_index s' = Some idx \<and> some_noise_snippet s' = Some snippets \<and>
            int (length idx)
              = (nb_snippet div int (nb_segment (dataio s))) * int (nb_segment (dataio s)) \<and>
            length snippets = length idx \<and>
            (\<forall>r\<in>set idx. label r = l) \<and>
            (\<forall>i<length idx.
               segment (idx ! i) = int i div (nb_snippet div int (nb_segment (dataio s)))) \<and>
            (\<not> int (nb_segment (dataio s)) dvd nb_snippet \<longrightarrow> int (length idx) < nb_snippet))"
proof -
  let ?S = "nb_segment (dataio s)"
  let ?n = "nb_snippet div int ?S"
  from assms obtain n_left n_right idx snippets where
    S: "?S \<noteq> 0"
    and segs: "noise_segments l choice n_left n_right ?n [0..<?S] s = Inr idx"
    and snip: "read_snippets reader n_left (n_right - n_left) idx = Inr snippets"
    and s': "s' = s\<lparr>some_noise_index := Some idx, some_noise_snippet := Some snippets\<rparr>"
    by (auto simp: extract_some_noise_def Let_def split: option.splits if_splits sum.splits)
  from noise_segments_shape [OF segs]
  have len: "int (length idx) = int ?S * ?n"
    and lab: "\<forall>r\<in>set idx. label r = l"
    and seg: "map segment idx = concat (map (\<lambda>g. replicate (nat ?n) (int g)) [0..<?S])"
    by simp_all
  have n0: "0 \<le> ?n"
  proof -
    have "0 \<le> int ?S * ?n" using len by (metis of_nat_0_le_iff)
    moreover have "0 < int ?S" using S by simp
    ultimately show ?thesis by (simp add: zero_le_mult_iff)
  qed
  have nlen: "length idx = ?S * nat ?n"
  proof -
    have "int (length idx) = int (?S * nat ?n)" using len n0 by simp
    then show ?thesis by (simp only: of_nat_eq_iff)
  qed
  have segment: "\<forall>i<length idx. segment (idx ! i) = int i div ?n"
  proof (intro allI impI)
    fix i assume i: "i < length idx"
    then have "segment (idx ! i) = map segment idx ! i" by simp
    also have "\<dots> = int (i div nat ?n)"
      using i nlen by (simp only: seg nth_concat_replicate)
    also have "\<dots> = int i div ?n"
      using n0 by (simp add: zdiv_int)
    finally show "segment (idx ! i) = int i div ?n" .
  qed
  have fewer: "\<not> int ?S dvd nb_snippet \<longrightarrow> int (length idx) < nb_snippet"
  proof
    assume nd: "\<not> int ?S dvd nb_snippet"
    have pos: "0 < int ?S" using S by simp
    have "nb_snippet mod int ?S \<noteq> 0" using nd by (simp add: dvd_eq_mod_eq_0)
    moreover have "0 \<le> nb_snippet mod int ?S" using pos by simp
    ultimately have "0 < nb_snippet mod int ?S" by linarith
    moreover have "nb_snippet = int ?S * ?n + nb_snippet mod int ?S" by simp
    ultimately show "int (length idx) < nb_snippet" using len by linarith
  qed
  have "length snippets = length idx"
    using snip by (rule read_snippets_length)
  with S s' len lab segment fewer show ?thesis
    by (auto simp: mult.commute)
qed

theorem extract_some_noise_count_witness:
  "map_sum id some_noise_index
     (extract_some_noise (- 2) (\<lambda>seg_num a size. [7, 1])
        (\<lambda>seg_num i_start i_stop. replicate (nat (i_stop - i_start)) [0]) 5
        (blank\<lparr>dataio := blank_dataio\<lparr>nb_segment := 2\<rparr>,
                info := \<lparr>params_waveformextractor = Some (- 2, 3), processed_length = Some 20\<rparr>,
                all_peaks := Some [mk_peak 10 0 0]\<rparr>))
   = Inr (Some [mk_peak 6 (- 2) 0, mk_peak 12 (- 2) 0, mk_peak 6 (- 2) 1, mk_peak 12 (- 2) 1])
   \<and> map_sum id (map_option length \<circ> some_noise_snippet)
     (extract_some_noise (- 2) (\<lambda>seg_num a size. [7, 1])
        (\<lambda>seg_num i_start i_stop. replicate (nat (i_stop - i_start)) [0]) 5
        (blank\<lparr>dataio := blank_dataio\<lparr>nb_segment := 2\<rparr>,
                info := \<lparr>params_waveformextractor = Some (- 2, 3), processed_length = Some 20\<rparr>,
                all_peaks := Some [mk_peak 10 0 0]\<rparr>))
   = Inr (Some 4)"
proof -
  let ?s = "blank\<lparr>dataio := blank_dataio\<lparr>nb_segment := 2\<rparr>,
                info := \<lparr>params_waveformextractor = Some (- 2, 3), processed_length = Some 20\<rparr>,
                all_peaks := Some [mk_peak 10 0 0]\<rparr>"
  let ?reader = "\<lambda>(seg_num::int) i_start i_stop. replicate (nat (i_stop - i_start)) [0::real]"
  let ?idx = "[mk_peak 6 (- 2) 0, mk_peak 12 (- 2) 0, mk_peak 6 (- 2) 1, mk_peak 12 (- 2) 1]"
  have pi0: "possible_indexes 20 (- 2) 3 [\<lparr>index = 10, label = 0, segment = 0\<rparr>]
      = [5, 6, 7, 8, 9, 10, 11, 12, 13, 14]"
    by code_simp
  have pi1: "possible_indexes 20 (- 2) 3 [] = [5, 6, 7, 8, 9, 10, 11, 12, 13, 14]"
    by code_simp
  have ev: "extract_some_noise (- 2) (\<lambda>seg_num a size. [7, 1]) ?reader 5 ?s
      = Inr (?s\<lparr>some_noise_index := Some ?idx,
                some_noise_snippet := Some (replicate 4 (replicate 5 [0]))\<rparr>)"
    by (simp add: extract_some_noise_def noise_one_segment_def pi0 pi1 store_snippet_def
        Let_def blank_def blank_dataio_def mk_peak_def numeral_eq_Suc)
  from extract_some_noise_count [OF ev] have "1 \<le> nb_segment (dataio ?s)"
    by blast
  then show ?thesis
    unfolding ev by (simp add: mk_peak_def)
qed

text \<open>
  C2: no persisted noise snippet should overlap the waveform window of a peak of its
  segment. The loop that should clear the band around each peak assigns nothing, so a
  position inside a peak's window stays eligible. Evaluated on one segment of 20
  processed samples with the window \<open>n_left = -2\<close>, \<open>n_right = 3\<close> and one peak at
  sample 10: the eligible positions are 5 to 14; when the draw is 5, the noise index is
  10, the peak's own position, and the two windows are the same samples 8 to 12.
\<close>

theorem extract_some_noise_overlaps_peak:
  "possible_indexes 20 (- 2) 3 [mk_peak 10 0 0] = [5, 6, 7, 8, 9, 10, 11, 12, 13, 14]
   \<and> map_sum id some_noise_index
     (extract_some_noise (- 2) (\<lambda>seg_num a size. [5])
        (\<lambda>seg_num i_start i_stop. replicate (nat (i_stop - i_start)) [0]) 1
        (blank\<lparr>info := \<lparr>params_waveformextractor = Some (- 2, 3), processed_length = Some 20\<rparr>,
                all_peaks := Some [mk_peak 10 0 0]\<rparr>))
     = Inr (Some [mk_peak 10 (- 2) 0])
   \<and> windows_overlap (- 2) 3 10 10"
proof -
  have pi: "possible_indexes 20 (- 2) 3 [\<lparr>index = 10, label = 0, segment = 0\<rparr>]
      = [5, 6, 7, 8, 9, 10, 11, 12, 13, 14]"
    by code_simp
  then show ?thesis
    by (simp add: extract_some_noise_def noise_one_segment_def store_snippet_def Let_def
        blank_def blank_dataio_def mk_peak_def windows_overlap_def)
qed

section \<open>Facts about the noise estimation\<close>

lemma chunked_length_bounds:
  assumes "0 < chunksize s"
  shows "chunked_length fp s duration \<le> requested_samples fp s duration"
    and "requested_samples fp s duration - chunksize s < chunked_length fp s duration"
proof -
  have "0 \<le> requested_samples fp s duration mod chunksize s"
    and "requested_samples fp s duration mod chunksize s < chunksize s"
    using assms by simp_all
  then show "chunked_length fp s duration \<le> requested_samples fp s duration"
    and "requested_samples fp s duration - chunksize s < chunked_length fp s duration"
    by (simp_all add: chunked_length_def)
qed

text \<open>A chunk that fits is stored as it is, and the array keeps its number of rows.\<close>

lemma assign_chunk_fits:
  assumes "int (length chunk) \<le> pos2" and "pos2 \<le> int (length filtered_sigs)"
    and "\<forall>row\<in>set chunk. length row = nchan"
  shows "\<exists>updated. assign_chunk nchan filtered_sigs pos2 chunk = Inr updated
           \<and> length updated = length filtered_sigs"
proof -
  let ?rows = "int (length filtered_sigs)"
  have lo: "slice_bound ?rows (pos2 - int (length chunk)) = pos2 - int (length chunk)"
    and hi: "slice_bound ?rows pos2 = pos2"
    using assms(1,2) by (simp_all add: slice_bound_def)
  have b: "broadcast_chunk (length chunk) nchan chunk = Inr chunk"
    using assms(3) by (simp add: broadcast_chunk_def map_idI)
  have "assign_chunk nchan filtered_sigs pos2 chunk
      = Inr (take (nat (pos2 - int (length chunk))) filtered_sigs @ chunk
             @ drop (nat (pos2 - int (length chunk)) + length chunk) filtered_sigs)"
    by (simp add: assign_chunk_def Let_def lo hi b)
  moreover have "length (take (nat (pos2 - int (length chunk))) filtered_sigs @ chunk
             @ drop (nat (pos2 - int (length chunk)) + length chunk) filtered_sigs)
      = length filtered_sigs"
    using assms(1,2) by simp
  ultimately show ?thesis by simp
qed

text \<open>
  When every chunk fits, the loop does not raise, the array keeps its number of rows and
  \<^verbatim>\<open>pos2\<close> is bound to the position of the last turn.
\<close>

lemma conditioning_loop_fits:
  "chunks_fit (int (length filtered_sigs)) nchan outcomes \<Longrightarrow>
     \<exists>filtered. conditioning_loop nchan outcomes (filtered_sigs, previous)
                  = Inr (filtered, if outcomes = [] then previous
                                   else Some (fst (last outcomes)))
                \<and> length filtered = length filtered_sigs"
proof (induction outcomes arbitrary: filtered_sigs previous)
  case Nil
  then show ?case by simp
next
  case (Cons r outcomes)
  obtain pos2 preprocessed_chunk where r: "r = (pos2, preprocessed_chunk)"
    by (cases r)
  from Cons.prems have rest: "chunks_fit (int (length filtered_sigs)) nchan outcomes"
    by (simp add: chunks_fit_def)
  have bound: "(if outcomes = [] then Some pos2 else Some (fst (last outcomes)))
      = (if r # outcomes = [] then previous else Some (fst (last (r # outcomes))))"
    by (simp add: r)
  show ?case
  proof (cases preprocessed_chunk)
    case None
    from Cons.IH [OF rest, of "Some pos2"] show ?thesis
      unfolding bound [symmetric] by (simp add: r None)
  next
    case (Some chunk)
    from Cons.prems have "int (length chunk) \<le> pos2" and "pos2 \<le> int (length filtered_sigs)"
      and "\<forall>row\<in>set chunk. length row = nchan"
      by (simp_all add: chunks_fit_def r Some)
    from assign_chunk_fits [OF this] obtain updated where
      u: "assign_chunk nchan filtered_sigs pos2 chunk = Inr updated"
      and lu: "length updated = length filtered_sigs"
      by blast
    from rest have "chunks_fit (int (length updated)) nchan outcomes"
      by (simp add: lu)
    from Cons.IH [OF this, of "Some pos2"] show ?thesis
      unfolding bound [symmetric] by (simp add: r Some u lu)
  qed
qed

section \<open>Claim about the noise estimation\<close>

text \<open>
  C8, as stated, fails in both directions. The state has one channel and chunks of 4
  samples, the acquisition runs at 10 Hz, the front trim of the conditioning engine is 2
  samples, and the float products below are exact. On a segment of 13 samples a
  duration of 1.5 s asks for 15 samples, more than the segment holds; the count is
  rounded down to 12 before the check, the engine conditions the three chunks, and the
  call returns with the statistics stored. On a segment of 20 samples a duration of 2 s
  asks for exactly the 20 samples the segment holds, and the strict comparison raises
  \<^verbatim>\<open>AssertionError\<close>. On the segment of 13 samples a duration of 0.25 s asks for 2
  samples, fewer than the segment holds and fewer than a chunk: the count is rounded
  down to 0, the check passes, and the call fails afterwards. With a front trim of 2
  the array is asked for with a negative number of rows; with a front trim of 0 the
  iterator gives no chunk, and line 236 reads the local \<^verbatim>\<open>pos2\<close> that no turn of
  the loop has bound.
\<close>

theorem estimate_signals_noise_duration_counterexample:
  "real_of_int (get_segment_length (dataio
       (blank\<lparr>dataio := blank_dataio\<lparr>sample_rate := 10,
                           get_segment_length := (\<lambda>seg_num. 13)\<rparr>, chunksize := 4\<rparr>)) 0)
     < 3 / 2 * sample_rate (dataio
       (blank\<lparr>dataio := blank_dataio\<lparr>sample_rate := 10,
                           get_segment_length := (\<lambda>seg_num. 13)\<rparr>, chunksize := 4\<rparr>))
   \<and> estimate_signals_noise (\<lambda>x y. x * y) 2
        (\<lambda>seg_num i_stop. [(2, Some [[1], [1]]), (6, Some [[1], [1], [2], [3]]),
                            (10, Some [[1], [1], [1], [1]])])
        (\<lambda>x. [np_median (map hd x)])
        (\<lambda>x medians. [np_median (map (\<lambda>row. \<bar>hd row - hd medians\<bar>) x) * (14826 / 10000)])
        0 (3 / 2)
        (blank\<lparr>dataio := blank_dataio\<lparr>sample_rate := 10,
                            get_segment_length := (\<lambda>seg_num. 13)\<rparr>, chunksize := 4\<rparr>)
     = Inr (blank\<lparr>dataio := blank_dataio\<lparr>sample_rate := 10,
                                get_segment_length := (\<lambda>seg_num. 13)\<rparr>, chunksize := 4,
                   signals_medians := Some [1], signals_mads := Some [0]\<rparr>)
   \<and> 2 * sample_rate (dataio
       (blank\<lparr>dataio := blank_dataio\<lparr>sample_rate := 10,
                           get_segment_length := (\<lambda>seg_num. 20)\<rparr>, chunksize := 4\<rparr>))
     \<le> real_of_int (get_segment_length (dataio
       (blank\<lparr>dataio := blank_dataio\<lparr>sample_rate := 10,
                           get_segment_length := (\<lambda>seg_num. 20)\<rparr>, chunksize := 4\<rparr>)) 0)
   \<and> estimate_signals_noise (\<lambda>x y. x * y) 2
        (\<lambda>seg_num i_stop. [])
        (\<lambda>x. [np_median (map hd x)])
        (\<lambda>x medians. [np_median (map (\<lambda>row. \<bar>hd row - hd medians\<bar>) x) * (14826 / 10000)])
        0 2
        (blank\<lparr>dataio := blank_dataio\<lparr>sample_rate := 10,
                            get_segment_length := (\<lambda>seg_num. 20)\<rparr>, chunksize := 4\<rparr>)
     = Inl AssertionError
   \<and> 1 / 4 * sample_rate (dataio
       (blank\<lparr>dataio := blank_dataio\<lparr>sample_rate := 10,
                           get_segment_length := (\<lambda>seg_num. 13)\<rparr>, chunksize := 4\<rparr>))
     \<le> real_of_int (get_segment_length (dataio
       (blank\<lparr>dataio := blank_dataio\<lparr>sample_rate := 10,
                           get_segment_length := (\<lambda>seg_num. 13)\<rparr>, chunksize := 4\<rparr>)) 0)
   \<and> isl (estimate_signals_noise (\<lambda>x y. x * y) 2
        (\<lambda>seg_num i_stop. [])
        (\<lambda>x. [np_median (map hd x)])
        (\<lambda>x medians. [np_median (map (\<lambda>row. \<bar>hd row - hd medians\<bar>) x) * (14826 / 10000)])
        0 (1 / 4)
        (blank\<lparr>dataio := blank_dataio\<lparr>sample_rate := 10,
                            get_segment_length := (\<lambda>seg_num. 13)\<rparr>, chunksize := 4\<rparr>))
   \<and> isl (estimate_signals_noise (\<lambda>x y. x * y) 0
        (\<lambda>seg_num i_stop. [])
        (\<lambda>x. [np_median (map hd x)])
        (\<lambda>x medians. [np_median (map (\<lambda>row. \<bar>hd row - hd medians\<bar>) x) * (14826 / 10000)])
        0 (1 / 4)
        (blank\<lparr>dataio := blank_dataio\<lparr>sample_rate := 10,
                            get_segment_length := (\<lambda>seg_num. 13)\<rparr>, chunksize := 4\<rparr>))"
proof -
  let ?s = "blank\<lparr>dataio := blank_dataio\<lparr>sample_rate := 10,
                                get_segment_length := (\<lambda>seg_num::int. 13::int)\<rparr>, chunksize := 4\<rparr>"
  let ?s20 = "blank\<lparr>dataio := blank_dataio\<lparr>sample_rate := 10,
                                  get_segment_length := (\<lambda>seg_num::int. 20::int)\<rparr>, chunksize := 4\<rparr>"
  let ?fp = "\<lambda>(x::real) y. x * y"
  let ?med = "\<lambda>x::real list list. [np_median (map hd x)]"
  let ?mad = "\<lambda>(x::real list list) (medians::real list).
      [np_median (map (\<lambda>row. \<bar>hd row - hd medians\<bar>) x) * (14826 / 10000)]"
  let ?three = "\<lambda>(seg_num::int) (i_stop::int).
      [(2::int, Some [[1], [1]]), (6, Some [[1], [1], [2], [3]]), (10, Some [[1], [1], [1], [1::real]])]"
  let ?none = "\<lambda>(seg_num::int) (i_stop::int). [] :: (int \<times> real list list option) list"
  have c15: "chunked_length ?fp ?s (3 / 2) = 12"
    and c4: "chunked_length ?fp ?s (1 / 4) = 0"
    and c20: "chunked_length ?fp ?s20 2 = 20"
    by (simp_all add: chunked_length_def requested_samples_def py_int_def)
  have nb: "nb_channel blank = Suc 0"
    by (simp add: blank_def)
  have loop: "conditioning_loop 1 (?three 0 12) (replicate 10 [0], None)
      = Inr ([[1], [1], [1], [1], [2], [3], [1], [1], [1], [1]], Some 10)"
    by (simp add: assign_chunk_def broadcast_chunk_def slice_bound_def Let_def
        numeral_eq_Suc)
  have m: "np_median [1, 1, 1, 1, 2, 3, 1, 1, 1, 1] = 1"
    and d: "np_median [0, 0, 0, 0, 1, 2, 0, 0, 0, 0] = 0"
    by (simp_all add: np_median_def)
  have a: "estimate_signals_noise ?fp 2 ?three ?med ?mad 0 (3 / 2) ?s
      = Inr (?s\<lparr>signals_medians := Some [1], signals_mads := Some [0]\<rparr>)"
    by (simp add: estimate_signals_noise_def c15 create_array_def nb
        loop [unfolded One_nat_def] slice_bound_def m d del: conditioning_loop.simps)
  have b: "estimate_signals_noise ?fp 2 ?none ?med ?mad 0 2 ?s20 = Inl AssertionError"
    by (simp add: estimate_signals_noise_def c20)
  have c: "estimate_signals_noise ?fp 2 ?none ?med ?mad 0 (1 / 4) ?s = Inl ValueError"
    by (simp add: estimate_signals_noise_def c4 create_array_def)
  have e: "estimate_signals_noise ?fp 0 ?none ?med ?mad 0 (1 / 4) ?s = Inl UnboundLocalError"
    by (simp add: estimate_signals_noise_def c4 create_array_def)
  have g: "get_segment_length (dataio ?s) 0 = 13" "get_segment_length (dataio ?s20) 0 = 20"
    "sample_rate (dataio ?s) = 10" "sample_rate (dataio ?s20) = 10"
    by simp_all
  show ?thesis
    unfolding a b c e g by simp
qed

text \<open>
  C8, amended: with a positive chunk size, \<^verbatim>\<open>estimate_signals_noise\<close> raises
  \<^verbatim>\<open>AssertionError\<close> when the requested number of samples, rounded down to a whole
  number of chunks, exceeds the length of the segment, and in particular when the
  requested number exceeds that length by a chunk or more. When the rounded number is
  below the length of the segment, and in particular when the requested number is, the
  call does not fail, provided that the array of conditioned signal has a row and a
  column (the rounded number exceeds the front trim of the conditioning engine, and
  there is a channel), that the loop conditions at least one chunk and that every
  conditioned chunk lies inside the array: the loop then ends without an exception, the
  call returns, it stores the medians and the spreads that numpy computes on the rows of
  the conditioned array before the last position, and it changes nothing else.
\<close>

theorem estimate_signals_noise_duration_check:
  assumes "0 < chunksize s"
    and "len = chunked_length float_product s duration"
    and "outcomes = conditioning seg_num len"
    and "outcome = estimate_signals_noise float_product lostfront_chunksize conditioning
                     column_medians column_spreads seg_num duration s"
  shows "(get_segment_length (dataio s) seg_num < len \<longrightarrow> outcome = Inl AssertionError) \<and>
         (get_segment_length (dataio s) seg_num + chunksize s
            \<le> requested_samples float_product s duration \<longrightarrow> outcome = Inl AssertionError) \<and>
         ((len < get_segment_length (dataio s) seg_num
             \<or> requested_samples float_product s duration < get_segment_length (dataio s) seg_num)
          \<and> lostfront_chunksize < len \<and> 0 < nb_channel s \<and> outcomes \<noteq> []
          \<and> chunks_fit (len - lostfront_chunksize) (nb_channel s) outcomes \<longrightarrow>
            (\<exists>filtered.
               conditioning_loop (nb_channel s) outcomes
                   (replicate (nat (len - lostfront_chunksize)) (replicate (nb_channel s) 0),
                    None)
                 = Inr (filtered, Some (fst (last outcomes))) \<and>
               length filtered = nat (len - lostfront_chunksize) \<and>
               outcome = Inr (s\<lparr>signals_medians :=
                   Some (column_medians
                     (take (nat (slice_bound (len - lostfront_chunksize) (fst (last outcomes))))
                        filtered)),
                 signals_mads :=
                   Some (column_spreads
                     (take (nat (slice_bound (len - lostfront_chunksize) (fst (last outcomes))))
                        filtered)
                     (column_medians
                       (take (nat (slice_bound (len - lostfront_chunksize)
                                     (fst (last outcomes))))
                          filtered)))\<rparr>)))"
proof -
  note b = chunked_length_bounds [OF assms(1), of float_product duration, folded assms(2)]
  from assms(1) have c: "chunksize s \<noteq> 0" by simp
  let ?seg = "get_segment_length (dataio s) seg_num"
  let ?rows = "len - lostfront_chunksize"
  have fail: "?seg < len \<Longrightarrow> outcome = Inl AssertionError"
    using c by (simp add: assms(4) estimate_signals_noise_def assms(2) [symmetric])
  have far: "?seg + chunksize s \<le> requested_samples float_product s duration \<Longrightarrow> ?seg < len"
    using b(2) by simp
  have near: "requested_samples float_product s duration < ?seg \<Longrightarrow> len < ?seg"
    using b(1) by simp
  have pass: "\<exists>filtered.
      conditioning_loop (nb_channel s) outcomes
          (replicate (nat ?rows) (replicate (nb_channel s) 0), None)
        = Inr (filtered, Some (fst (last outcomes))) \<and>
      length filtered = nat ?rows \<and>
      outcome = Inr (s\<lparr>signals_medians :=
          Some (column_medians (take (nat (slice_bound ?rows (fst (last outcomes)))) filtered)),
        signals_mads :=
          Some (column_spreads (take (nat (slice_bound ?rows (fst (last outcomes)))) filtered)
            (column_medians
               (take (nat (slice_bound ?rows (fst (last outcomes)))) filtered)))\<rparr>)"
    if below: "len < ?seg" and front: "lostfront_chunksize < len" and ne: "outcomes \<noteq> []"
      and fit: "chunks_fit ?rows (nb_channel s) outcomes"
  proof -
    let ?zeros = "replicate (nat ?rows) (replicate (nb_channel s) (0::real))"
    have created: "create_array ?rows (nb_channel s) = Inr ?zeros"
      using front by (simp add: create_array_def)
    have "chunks_fit (int (length ?zeros)) (nb_channel s) outcomes"
      using fit front by simp
    from conditioning_loop_fits [OF this, of None] ne obtain filtered where
      loop: "conditioning_loop (nb_channel s) outcomes (?zeros, None)
               = Inr (filtered, Some (fst (last outcomes)))"
      and len_f: "length filtered = nat ?rows"
      by auto
    have rows: "int (length filtered) = ?rows"
      using len_f front by simp
    have "outcome = Inr (s\<lparr>signals_medians :=
          Some (column_medians (take (nat (slice_bound ?rows (fst (last outcomes)))) filtered)),
        signals_mads :=
          Some (column_spreads (take (nat (slice_bound ?rows (fst (last outcomes)))) filtered)
            (column_medians
               (take (nat (slice_bound ?rows (fst (last outcomes)))) filtered)))\<rparr>)"
      using c below
      by (simp add: assms(4) estimate_signals_noise_def assms(2) [symmetric] created
          assms(3) [symmetric] loop rows Let_def)
    with loop len_f show ?thesis by blast
  qed
  from fail far near pass show ?thesis by blast
qed

text \<open>
  The amended statement on the state of the counterexample, with a segment of 13
  samples: a duration of 1 s asks for 10 samples, rounded down to 8, the two conditioned
  chunks fit the 6 rows of the array, and the call stores the median 1 and the spread 0;
  a duration of 2 s asks for 20 samples, a chunk and more above the 13 of the segment,
  and the call raises \<^verbatim>\<open>AssertionError\<close>.
\<close>

theorem estimate_signals_noise_duration_check_witness:
  "0 < chunksize (blank\<lparr>dataio := blank_dataio\<lparr>sample_rate := 10,
                                      get_segment_length := (\<lambda>seg_num. 13)\<rparr>, chunksize := 4\<rparr>)
   \<and> chunked_length (\<lambda>x y. x * y)
        (blank\<lparr>dataio := blank_dataio\<lparr>sample_rate := 10,
                            get_segment_length := (\<lambda>seg_num. 13)\<rparr>, chunksize := 4\<rparr>) 1 = 8
   \<and> requested_samples (\<lambda>x y. x * y)
        (blank\<lparr>dataio := blank_dataio\<lparr>sample_rate := 10,
                            get_segment_length := (\<lambda>seg_num. 13)\<rparr>, chunksize := 4\<rparr>) 2 = 20
   \<and> 0 < nb_channel blank
   \<and> chunks_fit 6 1 [(2, Some [[1], [1]]), (6, Some [[1], [1], [2], [3]])]
   \<and> estimate_signals_noise (\<lambda>x y. x * y) 2
        (\<lambda>seg_num i_stop. [(2, Some [[1], [1]]), (6, Some [[1], [1], [2], [3]])])
        (\<lambda>x. [np_median (map hd x)])
        (\<lambda>x medians. [np_median (map (\<lambda>row. \<bar>hd row - hd medians\<bar>) x) * (14826 / 10000)])
        0 1
        (blank\<lparr>dataio := blank_dataio\<lparr>sample_rate := 10,
                            get_segment_length := (\<lambda>seg_num. 13)\<rparr>, chunksize := 4\<rparr>)
     = Inr (blank\<lparr>dataio := blank_dataio\<lparr>sample_rate := 10,
                                get_segment_length := (\<lambda>seg_num. 13)\<rparr>, chunksize := 4,
                   signals_medians := Some [1], signals_mads := Some [0]\<rparr>)
   \<and> estimate_signals_noise (\<lambda>x y. x * y) 2
        (\<lambda>seg_num i_stop. [(2, Some [[1], [1]]), (6, Some [[1], [1], [2], [3]])])
        (\<lambda>x. [np_median (map hd x)])
        (\<lambda>x medians. [np_median (map (\<lambda>row. \<bar>hd row - hd medians\<bar>) x) * (14826 / 10000)])
        0 2
        (blank\<lparr>dataio := blank_dataio\<lparr>sample_rate := 10,
                            get_segment_length := (\<lambda>seg_num. 13)\<rparr>, chunksize := 4\<rparr>)
     = Inl AssertionError"
proof -
  let ?s = "blank\<lparr>dataio := blank_dataio\<lparr>sample_rate := 10,
                                get_segment_length := (\<lambda>seg_num::int. 13::int)\<rparr>, chunksize := 4\<rparr>"
  let ?fp = "\<lambda>(x::real) y. x * y"
  let ?med = "\<lambda>x::real list list. [np_median (map hd x)]"
  let ?mad = "\<lambda>(x::real list list) (medians::real list).
      [np_median (map (\<lambda>row. \<bar>hd row - hd medians\<bar>) x) * (14826 / 10000)]"
  let ?two = "\<lambda>(seg_num::int) (i_stop::int).
      [(2::int, Some [[1], [1]]), (6, Some [[1], [1], [2], [3::real]])]"
  have h: "0 < chunksize ?s" by simp
  have c1: "chunked_length ?fp ?s 1 = 8" and r2: "requested_samples ?fp ?s 2 = 20"
    and g: "get_segment_length (dataio ?s) 0 = 13" and k: "chunksize ?s = 4"
    and n: "nb_channel ?s = 1"
    by (simp_all add: chunked_length_def requested_samples_def py_int_def blank_def)
  have nb: "nb_channel blank = Suc 0"
    by (simp add: blank_def)
  have fit: "chunks_fit 6 1 [(2, Some [[1], [1]]), (6, Some [[1], [1], [2], [3]])]"
    by (simp add: chunks_fit_def)
  note pass = estimate_signals_noise_duration_check
    [where s = ?s and float_product = ?fp and lostfront_chunksize = 2 and conditioning = ?two
       and column_medians = ?med and column_spreads = ?mad and seg_num = 0 and duration = 1,
     OF h refl refl refl, THEN conjunct2, THEN conjunct2]
  note fail = estimate_signals_noise_duration_check
    [where s = ?s and float_product = ?fp and lostfront_chunksize = 2 and conditioning = ?two
       and column_medians = ?med and column_spreads = ?mad and seg_num = 0 and duration = 2,
     OF h refl refl refl, THEN conjunct2, THEN conjunct1]
  from pass fit obtain filtered where f: "length filtered = 6"
    and stored: "estimate_signals_noise ?fp 2 ?two ?med ?mad 0 1 ?s
      = Inr (?s\<lparr>signals_medians := Some (?med (take (nat (slice_bound 6 6)) filtered)),
               signals_mads := Some (?mad (take (nat (slice_bound 6 6)) filtered)
                                       (?med (take (nat (slice_bound 6 6)) filtered)))\<rparr>)"
    by (auto simp: c1 g n)
  have loop: "conditioning_loop 1 (?two 0 8) (replicate 6 [0], None)
      = Inr ([[1], [1], [1], [1], [2], [3]], Some 6)"
    by (simp add: assign_chunk_def broadcast_chunk_def slice_bound_def Let_def
        numeral_eq_Suc)
  have m: "np_median [1, 1, 1, 1, 2, 3] = 1" and d: "np_median [0, 0, 0, 0, 1, 2] = 0"
    by (simp_all add: np_median_def)
  have a: "estimate_signals_noise ?fp 2 ?two ?med ?mad 0 1 ?s
      = Inr (?s\<lparr>signals_medians := Some [1], signals_mads := Some [0]\<rparr>)"
    by (simp add: estimate_signals_noise_def c1 create_array_def nb
        loop [unfolded One_nat_def] slice_bound_def m d del: conditioning_loop.simps)
  from fail have b: "estimate_signals_noise ?fp 2 ?two ?med ?mad 0 2 ?s = Inl AssertionError"
    by (simp add: r2 g k)
  from stored have "isl (estimate_signals_noise ?fp 2 ?two ?med ?mad 0 1 ?s) = False"
    by simp
  with h c1 r2 fit a b nb show ?thesis
    by simp
qed

section \<open>Facts about the reordering\<close>

lemma map_label_shift_labels:
  "map label (shift_labels N ps) = map (\<lambda>l. if 0 \<le> l then wrap64 (l + N) else l) (map label ps)"
  by (simp add: shift_labels_def comp_def)

lemma map_label_set_label_where:
  "map label (set_label_where k v ps) = map (\<lambda>l. if l = k then v else l) (map label ps)"
  by (simp add: set_label_where_def comp_def)

lemma no_collision_Cons:
  "no_collision k (old # olds) \<Longrightarrow> int k \<notin> set olds \<and> no_collision (Suc k) olds"
proof
  assume nc: "no_collision k (old # olds)"
  from nc have "int (k + 0) \<notin> set (drop (Suc 0) (old # olds))"
    unfolding no_collision_def by (metis length_Cons zero_less_Suc)
  then show "int k \<notin> set olds" by simp
  show "no_collision (Suc k) olds"
    unfolding no_collision_def
  proof (intro allI impI)
    fix j assume "j < length olds"
    then have "Suc j < length (old # olds)" by simp
    with nc have "int (k + Suc j) \<notin> set (drop (Suc (Suc j)) (old # olds))"
      unfolding no_collision_def by blast
    then show "int (Suc k + j) \<notin> set (drop (Suc j) olds)" by simp
  qed
qed

lemma reassign_labels_map:
  "distinct olds \<Longrightarrow> no_collision k olds \<Longrightarrow>
     map label (reassign_labels (enumerate k olds) ps)
       = map (\<lambda>l. if l \<in> set olds then int (k + first_index olds l) else l) (map label ps)"
proof (induction olds arbitrary: k ps)
  case Nil
  then show ?case by simp
next
  case (Cons old olds)
  from no_collision_Cons [OF Cons.prems(2)]
  have fresh: "int k \<notin> set olds" and nc: "no_collision (Suc k) olds" by simp_all
  from Cons.prems(1) have d: "distinct olds" and o: "old \<notin> set olds" by simp_all
  have "map label (reassign_labels (enumerate k (old # olds)) ps)
      = map label (reassign_labels (enumerate (Suc k) olds) (set_label_where old (int k) ps))"
    by simp
  also have "\<dots> = map (\<lambda>l. if l \<in> set olds then int (Suc k + first_index olds l) else l)
      (map label (set_label_where old (int k) ps))"
    using Cons.IH [OF d nc] by simp
  also have "\<dots> = map (\<lambda>l. if l \<in> set (old # olds)
      then int (k + first_index (old # olds) l) else l) (map label ps)"
    using fresh o by (auto simp: map_label_set_label_where)
  finally show ?case .
qed

lemma length_reassign_labels: "length (reassign_labels pairs ps) = length ps"
  by (induction pairs ps rule: reassign_labels.induct) (simp_all add: length_set_label_where)

lemma reassign_labels_keeps_negative:
  "\<forall>(new, old)\<in>set pairs. 0 \<le> old \<Longrightarrow> i < length ps \<Longrightarrow> label (ps ! i) < 0 \<Longrightarrow>
     reassign_labels pairs ps ! i = ps ! i"
proof (induction pairs ps rule: reassign_labels.induct)
  case (1 ps)
  then show ?case by simp
next
  case (2 new old rest ps)
  have old: "0 \<le> old" using "2.prems"(1) by simp
  have same: "set_label_where old (int new) ps ! i = ps ! i"
    using "2.prems"(2,3) old by (simp add: set_label_where_def)
  have "reassign_labels rest (set_label_where old (int new) ps) ! i
      = set_label_where old (int new) ps ! i"
    using "2.prems" same by (intro "2.IH") (simp_all add: length_set_label_where)
  with same show ?case by simp
qed

lemma reassign_labels_keeps_place:
  "map index (reassign_labels pairs ps) = map index ps \<and>
   map segment (reassign_labels pairs ps) = map segment ps"
  by (induction pairs ps rule: reassign_labels.induct)
     (simp_all add: set_label_where_def comp_def)

lemma shift_labels_keeps_place:
  "map index (shift_labels N ps) = map index ps \<and>
   map segment (shift_labels N ps) = map segment ps"
  by (simp add: shift_labels_def comp_def)

lemma first_index_nth: "distinct xs \<Longrightarrow> i < length xs \<Longrightarrow> first_index xs (xs ! i) = i"
proof (induction xs arbitrary: i)
  case Nil
  then show ?case by simp
next
  case (Cons x xs)
  then show ?case by (cases i) auto
qed

lemma nth_first_index: "x \<in> set xs \<Longrightarrow> first_index xs x < length xs \<and> xs ! first_index xs x = x"
  by (induction xs) auto

lemma wrap64_id: "- (2 ^ 63) \<le> x \<Longrightarrow> x < 2 ^ 63 \<Longrightarrow> wrap64 x = x"
proof -
  assume lo: "- (2 ^ 63) \<le> x" and hi: "x < 2 ^ 63"
  have "(x + 2 ^ 63) mod 2 ^ 64 = x + 2 ^ 63"
    using lo hi by (intro mod_pos_pos_trivial) simp_all
  then show ?thesis by (simp add: wrap64_def)
qed

lemma py_max_Max: "xs \<noteq> [] \<Longrightarrow> py_max xs = Max (set xs)"
proof -
  assume "xs \<noteq> []"
  then obtain a list where xs: "xs = a # list" by (cases xs) auto
  have "Max (set (a # list)) = fold max list a" by (rule Max.set_eq_fold)
  then show ?thesis by (simp only: xs py_max_def list.sel)
qed

lemma mset_map_nth_perm:
  assumes "mset order = mset [0..<length xs]"
  shows "mset (map (\<lambda>i. xs ! i) order) = mset xs"
proof -
  have "mset (map (\<lambda>i. xs ! i) order) = image_mset (\<lambda>i. xs ! i) (mset order)" by simp
  also have "\<dots> = image_mset (\<lambda>i. xs ! i) (mset [0..<length xs])" by (simp only: assms)
  also have "\<dots> = mset (map (\<lambda>i. xs ! i) [0..<length xs])" by simp
  also have "\<dots> = mset xs" by (simp only: map_nth)
  finally show ?thesis .
qed

lemma perm_upt_facts:
  assumes "mset order = mset [0..<n]"
  shows "length order = n" and "distinct order" and "set order = {0..<n}"
proof -
  show "length order = n" using assms by (metis length_upt mset_eq_length minus_nat.diff_0)
  show "distinct order" using assms by (metis distinct_upt mset_eq_imp_distinct_iff)
  show "set order = {0..<n}" using assms by (metis atLeastLessThan_upt mset_eq_setD)
qed

lemma distinct_bounded_length:
  assumes "distinct (L :: int list)" and "\<forall>l\<in>set L. 0 \<le> l \<and> l \<le> M" and "L \<noteq> []"
  shows "int (length L) \<le> M + 1"
proof -
  from assms(3) obtain l where "l \<in> set L" by (cases L) auto
  with assms(2) have M: "0 \<le> M" by force
  have "set L \<subseteq> {0..M}" using assms(2) by auto
  then have "card (set L) \<le> card {0..M}" by (intro card_mono) simp_all
  moreover have "card (set L) = length L" using assms(1) by (rule distinct_card)
  ultimately have "length L \<le> nat (M + 1)" by simp
  with M show ?thesis by linarith
qed

text \<open>
  The facts about the sorted labels \<open>L\<close> that the relabelling needs: they are distinct and
  not negative, the offset \<open>N\<close> is ten times their maximum, and no sum wraps around.
\<close>

lemma sorted_labels_offset:
  assumes "distinct L" and "L \<noteq> []" and "\<forall>l\<in>set L. 0 \<le> l" and "\<forall>l\<in>set L. l * 11 < 2 ^ 63"
  shows "wrap64 (py_max L * 10) = Max (set L) * 10"
    and "\<forall>l\<in>set L. l \<le> Max (set L)"
    and "0 \<le> Max (set L)"
    and "\<forall>l\<in>set L. wrap64 (l + Max (set L) * 10) = l + Max (set L) * 10"
    and "int (length L) \<le> Max (set L) + 1"
proof -
  let ?M = "Max (set L)"
  have Min: "?M \<in> set L" using assms(2) by (intro Max_in) simp_all
  show le: "\<forall>l\<in>set L. l \<le> ?M" by simp
  show M0: "0 \<le> ?M" using Min assms(3) by blast
  have M11: "?M * 11 < 2 ^ 63" using Min assms(4) by blast
  have "wrap64 (?M * 10) = ?M * 10"
    using M0 M11 by (intro wrap64_id) linarith+
  then show "wrap64 (py_max L * 10) = ?M * 10"
    using assms(2) by (simp add: py_max_Max)
  show "\<forall>l\<in>set L. wrap64 (l + ?M * 10) = l + ?M * 10"
  proof
    fix l assume l: "l \<in> set L"
    with assms(3) le have "0 \<le> l" and "l \<le> ?M" by auto
    then show "wrap64 (l + ?M * 10) = l + ?M * 10"
      using M0 M11 by (intro wrap64_id) linarith+
  qed
  show "int (length L) \<le> ?M + 1"
    using assms(1) _ assms(2) by (rule distinct_bounded_length) (use assms(3) le in blast)
qed

lemma shifted_no_collision:
  assumes "distinct L" and "L \<noteq> []" and "\<forall>l\<in>set L. 0 \<le> l"
    and "int (length L) \<le> Max (set L) + 1"
  shows "no_collision 0 (map (\<lambda>l. l + Max (set L) * 10) L)"
  unfolding no_collision_def
proof (intro allI impI)
  let ?M = "Max (set L)"
  fix j assume j: "j < length (map (\<lambda>l. l + ?M * 10) L)"
  then have jl: "int j < ?M + 1" using assms(4) by simp
  show "int (0 + j) \<notin> set (drop (Suc j) (map (\<lambda>l. l + ?M * 10) L))"
  proof (cases "?M = 0")
    case True
    with assms(4) have "length L \<le> 1" by simp
    then have "drop (Suc j) (map (\<lambda>l. l + ?M * 10) L) = []" by simp
    then show ?thesis by simp
  next
    case False
    have "0 \<le> ?M" using assms(2,3) by (meson Max_in List.finite_set set_empty)
    with False have M: "1 \<le> ?M" by linarith
    have "\<forall>x\<in>set (map (\<lambda>l. l + ?M * 10) L). ?M * 10 \<le> x"
      using assms(3) by auto
    moreover have "int j < ?M * 10" using jl M by linarith
    ultimately have "int j \<notin> set (map (\<lambda>l. l + ?M * 10) L)" by fastforce
    then show ?thesis by (auto dest: in_set_dropD)
  qed
qed

lemma first_index_shift: "first_index (map (\<lambda>l. l + c) xs) (x + c) = first_index xs x"
  by (induction xs) simp_all

text \<open>
  The label a peak ends with: a reserved label stays; the label at position \<open>i\<close> of the
  sorted labels becomes \<open>i\<close>.
\<close>

lemma count_label_via_labels:
  "count_label ps k = int (length (filter (\<lambda>l. l = k) (map label ps)))"
  by (simp add: count_label_def filter_map comp_def)

lemma relabelled_count:
  assumes "distinct L" and "L \<noteq> []" and "\<forall>l\<in>set L. 0 \<le> l" and "\<forall>l\<in>set L. l * 11 < 2 ^ 63"
    and "\<forall>p\<in>set ps. 0 \<le> label p \<longrightarrow> label p \<in> set L"
    and "i < length L"
  shows "count_label
           (reassign_labels
              (enumerate 0 (map (\<lambda>l. wrap64 (l + wrap64 (py_max L * 10))) L))
              (shift_labels (wrap64 (py_max L * 10)) ps))
           (int i)
         = count_label ps (L ! i)"
proof -
  define N where "N = Max (set L) * 10"
  define olds where "olds = map (\<lambda>l. l + N) L"
  define shift where "shift = (\<lambda>l. if 0 \<le> l then wrap64 (l + N) else l)"
  define resolve where
    "resolve = (\<lambda>l. if l \<in> set olds then int (0 + first_index olds l) else l)"
  note f = sorted_labels_offset [OF assms(1-4)]
  have N: "wrap64 (py_max L * 10) = N" unfolding N_def by (rule f(1))
  have w: "\<forall>l\<in>set L. wrap64 (l + N) = l + N" unfolding N_def by (rule f(4))
  have N0: "0 \<le> N" unfolding N_def using f(3) by simp
  have olds: "map (\<lambda>l. wrap64 (l + N)) L = olds"
    unfolding olds_def using w by simp
  have d: "distinct olds"
    unfolding olds_def using assms(1) by (simp add: distinct_map inj_on_def)
  have nc: "no_collision 0 olds"
    unfolding olds_def N_def using assms(1-3) f(5) by (rule shifted_no_collision)
  have step1: "map label (shift_labels N ps) = map shift (map label ps)"
    unfolding shift_def by (rule map_label_shift_labels)
  have step2: "map label (reassign_labels (enumerate 0 olds) (shift_labels N ps))
      = map resolve (map label (shift_labels N ps))"
    unfolding resolve_def by (rule reassign_labels_map [OF d nc])
  have fi: "first_index olds (l + N) = first_index L l" for l
    unfolding olds_def by (rule first_index_shift)
  have final: "resolve (shift (label p)) = int i \<longleftrightarrow> label p = L ! i"
    if p: "p \<in> set ps" for p
  proof (cases "0 \<le> label p")
    case True
    with assms(5) p have mem: "label p \<in> set L" by blast
    then have "wrap64 (label p + N) = label p + N" using w by blast
    with True have s: "shift (label p) = label p + N" by (simp add: shift_def)
    have in_olds: "label p + N \<in> set olds" using mem by (simp add: olds_def)
    have r: "resolve (shift (label p)) = int (first_index L (label p))"
      using in_olds by (simp add: s resolve_def fi)
    have "first_index L (label p) = i \<longleftrightarrow> label p = L ! i"
      using nth_first_index [OF mem] first_index_nth [OF assms(1,6)] by auto
    with r show ?thesis by simp
  next
    case False
    then have neg: "label p < 0" by simp
    from False have s: "shift (label p) = label p" by (simp add: shift_def)
    have "label p \<notin> set olds"
    proof
      assume "label p \<in> set olds"
      then obtain l where "l \<in> set L" and "label p = l + N"
        by (auto simp: olds_def)
      with assms(3) N0 neg show False by force
    qed
    then have r: "resolve (shift (label p)) = label p" by (simp add: s resolve_def)
    have "L ! i \<in> set L" using assms(6) by simp
    then have "0 \<le> L ! i" using assms(3) by blast
    with r neg show ?thesis by simp
  qed
  have same: "filter (\<lambda>p. resolve (shift (label p)) = int i) ps
      = filter (\<lambda>p. label p = L ! i) ps"
    by (rule filter_cong [OF refl]) (rule final)
  have "count_label (reassign_labels (enumerate 0 olds) (shift_labels N ps)) (int i)
      = int (length (filter (\<lambda>l. l = int i) (map resolve (map shift (map label ps)))))"
    by (simp only: count_label_via_labels step2 step1)
  also have "\<dots> = int (length (filter (\<lambda>p. resolve (shift (label p)) = int i) ps))"
    by (simp add: filter_map comp_def)
  also have "\<dots> = count_label ps (L ! i)"
    by (simp only: same count_label_def)
  finally show ?thesis
    by (simp only: N olds)
qed

lemma cell_step_is_map: "\<exists>f. cell_step i cells = map f cells"
proof (cases "cell_step i cells = cells")
  case True
  then have "cell_step i cells = map (\<lambda>c. c) cells" by simp
  then show ?thesis by blast
next
  case False
  then have "cell_step i cells = map (\<lambda>c. if c = cells ! i then int i else c) cells"
    by (simp add: cell_step_def Let_def split: if_splits)
  then show ?thesis by blast
qed

lemma fold_cell_step_is_map: "\<exists>g. fold cell_step rows cells = map g cells"
proof (induction rows arbitrary: cells)
  case Nil
  have "fold cell_step [] cells = map (\<lambda>c. c) cells" by simp
  then show ?case by blast
next
  case (Cons i rows)
  obtain f where f: "cell_step i cells = map f cells"
    using cell_step_is_map by blast
  obtain g where g: "fold cell_step rows (map f cells) = map g (map f cells)"
    using Cons.IH by blast
  have "fold cell_step (i # rows) cells = map (g \<circ> f) cells"
    by (simp add: f g)
  then show ?case by blast
qed

lemma resolve_cells_keeps_equal:
  "length (resolve_cells cells) = length cells \<and>
   (\<forall>a<length cells. \<forall>b<length cells.
      cells ! a = cells ! b \<longrightarrow> resolve_cells cells ! a = resolve_cells cells ! b)"
proof -
  obtain g where "resolve_cells cells = map g cells"
    unfolding resolve_cells_def using fold_cell_step_is_map by blast
  then show ?thesis by simp
qed

text \<open>The rows of the reordered table, as \<^verbatim>\<open>order_clusters\<close> computes them.\<close>

lemma order_clusters_result:
  assumes "order_clusters argsort by s = Inr s'"
    and "all_peaks s = Some ps" and "clusters s = Some t"
    and "pos = filter (\<lambda>c. 0 \<le> cluster_label c) t"
    and "neg = filter (\<lambda>c. cluster_label c < 0) t"
    and "order = cluster_order argsort by pos"
    and "L = map (\<lambda>i. cluster_label (pos ! i)) order"
    and "N = wrap64 (py_max L * 10)"
    and "numbered = map (\<lambda>(i, c). c\<lparr>cluster_label := int i\<rparr>)
                      (enumerate 0 (map (\<lambda>i. pos ! i) order))"
    and "cells = resolve_cells (map (\<lambda>c. wrap64 (cell_label c + N)) numbered)"
  shows "L \<noteq> []"
    and "s' = s\<lparr>all_peaks := Some (reassign_labels
                    (enumerate 0 (map (\<lambda>l. wrap64 (l + N)) L)) (shift_labels N ps)),
                clusters := Some (neg @ map (\<lambda>(c, k). c\<lparr>cell_label := k\<rparr>)
                    (zip numbered cells))\<rparr>"
proof -
  from assms(1) show "L \<noteq> []"
    unfolding order_clusters_def Let_def assms(2,3) option.case
    unfolding assms(4-7) [symmetric]
    by (auto split: if_splits)
  from assms(1) show "s' = s\<lparr>all_peaks := Some (reassign_labels
                    (enumerate 0 (map (\<lambda>l. wrap64 (l + N)) L)) (shift_labels N ps)),
                clusters := Some (neg @ map (\<lambda>(c, k). c\<lparr>cell_label := k\<rparr>)
                    (zip numbered cells))\<rparr>"
    unfolding order_clusters_def Let_def assms(2,3) option.case
    unfolding assms(4-7) [symmetric]
    unfolding assms(8) [symmetric]
    unfolding assms(9) [symmetric]
    unfolding assms(10) [symmetric]
    by (auto split: if_splits)
qed

lemma in_set_enumerate_snd: "(a, b) \<in> set (enumerate n xs) \<Longrightarrow> b \<in> set xs"
  by (auto simp: in_set_enumerate_eq)

lemma numbered_rows:
  assumes "numbered = map (\<lambda>(i, c). c\<lparr>cluster_label := int i\<rparr>) (enumerate 0 rows)"
    and "length cells = length numbered"
    and "pos' = map (\<lambda>(c, k). c\<lparr>cell_label := k\<rparr>) (zip numbered cells)"
  shows "length pos' = length rows"
    and "map cluster_label pos' = map int [0..<length rows]"
    and "map nb_peak pos' = map nb_peak rows"
    and "map cell_label pos' = cells"
    and "map cell_label numbered = map cell_label rows"
proof -
  have ln: "length numbered = length rows" by (simp add: assms(1))
  then show lp: "length pos' = length rows" by (simp add: assms(2,3))
  have nth: "pos' ! i = (rows ! i)\<lparr>cluster_label := int i, cell_label := cells ! i\<rparr>"
    if "i < length rows" for i
    using that ln assms(2) by (simp add: assms(1,3) nth_enumerate_eq)
  show "map cluster_label pos' = map int [0..<length rows]"
    by (rule nth_equalityI) (simp_all add: lp nth)
  show "map nb_peak pos' = map nb_peak rows"
    by (rule nth_equalityI) (simp_all add: lp nth)
  show "map cell_label pos' = cells"
    by (rule nth_equalityI) (simp_all add: lp nth ln assms(2))
  show "map cell_label numbered = map cell_label rows"
    by (rule nth_equalityI) (simp_all add: ln assms(1) nth_enumerate_eq)
qed

section \<open>Claim about the reordering\<close>

text \<open>
  C5: \<^verbatim>\<open>order_clusters\<close> on a constructor whose table has one row per label (distinct
  \<open>cluster_label\<close>s, every peak label has a row) and whose labels are small enough for
  the offset not to wrap around. When the call returns, with \<open>pos\<close> the rows of label
  \<open>\<ge> 0\<close> and \<open>order\<close> the permutation the sort gives: the reserved rows stay in front,
  the row at new position \<open>i\<close> is row \<open>order ! i\<close> with \<open>cluster_label = i\<close> and its
  \<open>nb_peak\<close>; the peaks that carried the label of row \<open>order ! i\<close> are exactly the peaks
  that now carry label \<open>i\<close>, so the multiset of peak counts per cluster is the same, as
  is the multiset of the \<open>nb_peak\<close> column; two rows that had the same \<open>cell_label\<close>
  still have the same \<open>cell_label\<close>; and a peak with a negative label is unchanged, all
  peaks keeping their sample index and segment.
\<close>

theorem order_clusters_preserves:
  assumes run: "order_clusters argsort by s = Inr s'"
    and peaks: "all_peaks s = Some ps"
    and table: "clusters s = Some t"
    and dist: "distinct (map cluster_label t)"
    and rows: "\<forall>p\<in>set ps. label p \<in> set (map cluster_label t)"
    and small: "\<forall>c\<in>set t. cluster_label c * 11 < 2 ^ 63"
    and pos: "pos = filter (\<lambda>c. 0 \<le> cluster_label c) t"
    and neg: "neg = filter (\<lambda>c. cluster_label c < 0) t"
    and order: "order = cluster_order argsort by pos"
    and perm: "mset order = mset [0..<length pos]"
  shows "\<exists>ps' pos'.
           all_peaks s' = Some ps' \<and> clusters s' = Some (neg @ pos') \<and>
           length ps' = length ps \<and> length pos' = length pos \<and>
           map cluster_label pos' = map int [0..<length pos] \<and>
           map nb_peak pos' = map (\<lambda>i. nb_peak (pos ! i)) order \<and>
           (\<forall>i<length pos.
              count_label ps' (int i) = count_label ps (cluster_label (pos ! (order ! i)))) \<and>
           mset (map (count_label ps') (map cluster_label pos'))
             = mset (map (count_label ps) (map cluster_label pos)) \<and>
           mset (map nb_peak pos') = mset (map nb_peak pos) \<and>
           (\<forall>i<length pos. \<forall>j<length pos.
              cell_label (pos ! (order ! i)) = cell_label (pos ! (order ! j))
              \<longrightarrow> cell_label (pos' ! i) = cell_label (pos' ! j)) \<and>
           (\<forall>i<length ps. label (ps ! i) < 0 \<longrightarrow> ps' ! i = ps ! i) \<and>
           map index ps' = map index ps \<and> map segment ps' = map segment ps"
proof -
  define n where "n = length pos"
  define L where "L = map (\<lambda>i. cluster_label (pos ! i)) order"
  define N where "N = wrap64 (py_max L * 10)"
  define sorted_rows where "sorted_rows = map (\<lambda>i. pos ! i) order"
  define numbered where
    "numbered = map (\<lambda>(i, c). c\<lparr>cluster_label := int i\<rparr>) (enumerate 0 sorted_rows)"
  define cells0 where "cells0 = map (\<lambda>c. wrap64 (cell_label c + N)) numbered"
  define cells where "cells = resolve_cells cells0"
  define pos' where "pos' = map (\<lambda>(c, k). c\<lparr>cell_label := k\<rparr>) (zip numbered cells)"
  define olds where "olds = map (\<lambda>l. wrap64 (l + N)) L"
  define ps' where "ps' = reassign_labels (enumerate 0 olds) (shift_labels N ps)"
  note res = order_clusters_result [OF run peaks table pos neg order L_def N_def
      numbered_def [unfolded sorted_rows_def] cells_def [unfolded cells0_def]]
  have Lne: "L \<noteq> []" by (rule res(1))
  have s': "s' = s\<lparr>all_peaks := Some ps', clusters := Some (neg @ pos')\<rparr>"
    unfolding ps'_def olds_def pos'_def by (rule res(2))
  \<comment> \<open>the permutation\<close>
  from perm_upt_facts [OF perm]
  have lo: "length order = n" and so: "set order = {0..<n}"
    by (simp_all add: n_def)
  have msorted: "mset sorted_rows = mset pos"
    unfolding sorted_rows_def using perm by (rule mset_map_nth_perm)
  have Lrows: "L = map cluster_label sorted_rows"
    by (simp add: L_def sorted_rows_def)
  have mL: "mset L = mset (map cluster_label pos)"
    unfolding Lrows using msorted by (metis mset_map)
  have dpos: "distinct (map cluster_label pos)"
    unfolding pos using dist by (rule distinct_map_filter)
  have dL: "distinct L"
    using mL dpos by (metis mset_eq_imp_distinct_iff)
  have sL: "set L = set (map cluster_label pos)"
    using mL by (rule mset_eq_setD)
  have L0: "\<forall>l\<in>set L. 0 \<le> l"
    unfolding sL pos by auto
  have L11: "\<forall>l\<in>set L. l * 11 < 2 ^ 63"
    unfolding sL pos using small by auto
  have covered: "\<forall>p\<in>set ps. 0 \<le> label p \<longrightarrow> label p \<in> set L"
  proof (intro ballI impI)
    fix p assume "p \<in> set ps" and nonneg: "0 \<le> label p"
    with rows obtain c where "c \<in> set t" and "cluster_label c = label p" by auto
    with nonneg show "label p \<in> set L" unfolding sL pos by force
  qed
  have lL: "length L = n" by (simp add: L_def lo)
  \<comment> \<open>the peaks\<close>
  have count: "count_label ps' (int i) = count_label ps (cluster_label (pos ! (order ! i)))"
    if "i < n" for i
  proof -
    have "count_label ps' (int i) = count_label ps (L ! i)"
      unfolding ps'_def olds_def N_def
      using dL Lne L0 L11 covered that by (intro relabelled_count) (simp_all add: lL)
    also have "L ! i = cluster_label (pos ! (order ! i))"
      using that lo by (simp add: L_def)
    finally show ?thesis .
  qed
  have lps: "length ps' = length ps"
    by (simp add: ps'_def length_reassign_labels shift_labels_def)
  have place: "map index ps' = map index ps \<and> map segment ps' = map segment ps"
    unfolding ps'_def using reassign_labels_keeps_place shift_labels_keeps_place by metis
  note off = sorted_labels_offset [OF dL Lne L0 L11]
  have olds0: "\<forall>(new, old)\<in>set (enumerate 0 olds). 0 \<le> old"
  proof (intro ballI, clarify)
    fix new old assume "(new, old) \<in> set (enumerate 0 olds)"
    then have "old \<in> set olds" by (rule in_set_enumerate_snd)
    then obtain l where l: "l \<in> set L" and old: "old = wrap64 (l + N)"
      by (auto simp: olds_def)
    have "N = Max (set L) * 10" unfolding N_def by (rule off(1))
    with off(4) l old have "old = l + Max (set L) * 10" by simp
    with l L0 off(3) show "0 \<le> old" by force
  qed
  have reserved: "\<forall>i<length ps. label (ps ! i) < 0 \<longrightarrow> ps' ! i = ps ! i"
  proof (intro allI impI)
    fix i assume i: "i < length ps" and negl: "label (ps ! i) < 0"
    have sh: "shift_labels N ps ! i = ps ! i"
      using i negl by (simp add: shift_labels_def)
    have "reassign_labels (enumerate 0 olds) (shift_labels N ps) ! i = shift_labels N ps ! i"
      using olds0 i negl sh by (intro reassign_labels_keeps_negative) (simp_all add: shift_labels_def)
    with sh show "ps' ! i = ps ! i" by (simp add: ps'_def)
  qed
  \<comment> \<open>the table\<close>
  have lc: "length cells = length numbered"
    using resolve_cells_keeps_equal [of cells0] by (simp add: cells_def cells0_def)
  note nr = numbered_rows [OF numbered_def lc pos'_def]
  have lsr: "length sorted_rows = n" by (simp add: sorted_rows_def lo)
  have lp': "length pos' = n" using nr(1) lsr by simp
  have labels': "map cluster_label pos' = map int [0..<n]" using nr(2) lsr by simp
  have nb': "map nb_peak pos' = map (\<lambda>i. nb_peak (pos ! i)) order"
    using nr(3) by (simp add: sorted_rows_def)
  have mnb: "mset (map nb_peak pos') = mset (map nb_peak pos)"
    unfolding nr(3) using msorted by (metis mset_map)
  have mcount: "mset (map (count_label ps') (map cluster_label pos'))
      = mset (map (count_label ps) (map cluster_label pos))"
  proof -
    have "map (count_label ps') (map cluster_label pos')
        = map (\<lambda>i. count_label ps' (int i)) [0..<n]"
      by (simp add: labels')
    also have "\<dots> = map (\<lambda>i. count_label ps (L ! i)) [0..<n]"
      using count lo by (intro map_cong) (simp_all add: L_def)
    also have "\<dots> = map (count_label ps) (map (\<lambda>i. L ! i) [0..<length L])"
      by (simp add: lL)
    also have "\<dots> = map (count_label ps) L"
      by (simp only: map_nth)
    finally have e: "map (count_label ps') (map cluster_label pos') = map (count_label ps) L" .
    have "mset (map (count_label ps) L) = image_mset (count_label ps) (mset L)"
      by (rule mset_map)
    also have "\<dots> = image_mset (count_label ps) (mset (map cluster_label pos))"
      by (simp only: mL)
    also have "\<dots> = mset (map (count_label ps) (map cluster_label pos))"
      by (rule mset_map [symmetric])
    finally show ?thesis by (simp only: e)
  qed
  have cell: "\<forall>i<n. \<forall>j<n. cell_label (pos ! (order ! i)) = cell_label (pos ! (order ! j))
      \<longrightarrow> cell_label (pos' ! i) = cell_label (pos' ! j)"
  proof (intro allI impI)
    fix i j assume i: "i < n" and j: "j < n"
      and eq: "cell_label (pos ! (order ! i)) = cell_label (pos ! (order ! j))"
    have ln: "length numbered = n" using lc lp' nr(1) lsr by (simp add: numbered_def)
    have c0: "cells0 ! k = wrap64 (cell_label (pos ! (order ! k)) + N)" if "k < n" for k
    proof -
      have "cell_label (numbered ! k) = map cell_label numbered ! k"
        using that ln by simp
      also have "\<dots> = cell_label (sorted_rows ! k)"
        using that lsr by (simp add: nr(5))
      also have "\<dots> = cell_label (pos ! (order ! k))"
        using that lo by (simp add: sorted_rows_def)
      finally show ?thesis using that ln by (simp add: cells0_def)
    qed
    have l0: "length cells0 = n" by (simp add: cells0_def ln)
    have "cells0 ! i = cells0 ! j" using c0 [OF i] c0 [OF j] eq by simp
    moreover from resolve_cells_keeps_equal [of cells0]
    have "\<forall>a<n. \<forall>b<n. cells0 ! a = cells0 ! b \<longrightarrow> cells ! a = cells ! b"
      unfolding cells_def l0 by (rule conjunct2)
    ultimately have "cells ! i = cells ! j" using i j by blast
    moreover have "cell_label (pos' ! k) = cells ! k" if "k < n" for k
    proof -
      have "cell_label (pos' ! k) = map cell_label pos' ! k" using that lp' by simp
      then show ?thesis by (simp only: nr(4))
    qed
    ultimately show "cell_label (pos' ! i) = cell_label (pos' ! j)"
      using i j by simp
  qed
  have "all_peaks s' = Some ps'" and "clusters s' = Some (neg @ pos')"
    by (simp_all add: s')
  with lps lp' labels' nb' count mcount mnb cell reserved place show ?thesis
    unfolding n_def by blast
qed

theorem order_clusters_preserves_witness:
  "order_clusters (\<lambda>keys. [1, 0, 2]) ''waveforms_rms''
     (blank\<lparr>all_peaks := Some [mk_peak 10 (- 1) 0, mk_peak 20 0 0, mk_peak 30 2 0,
                                mk_peak 40 2 0, mk_peak 50 5 0],
             clusters := Some [mk_cluster (- 1) (- 1) 1, mk_cluster 0 0 1,
                               mk_cluster 2 2 2, mk_cluster 5 2 1]\<rparr>)
   = Inr (blank\<lparr>all_peaks := Some [mk_peak 10 (- 1) 0, mk_peak 20 1 0, mk_peak 30 2 0,
                                     mk_peak 40 2 0, mk_peak 50 0 0],
                clusters := Some [mk_cluster (- 1) (- 1) 1, mk_cluster 0 0 1,
                                  mk_cluster 1 1 1, mk_cluster 2 0 2]\<rparr>)
   \<and> count_label [mk_peak 10 (- 1) 0, mk_peak 20 1 0, mk_peak 30 2 0,
                  mk_peak 40 2 0, mk_peak 50 0 0] 1
     = count_label [mk_peak 10 (- 1) 0, mk_peak 20 0 0, mk_peak 30 2 0,
                    mk_peak 40 2 0, mk_peak 50 5 0] 0"
proof -
  let ?ps = "[mk_peak 10 (- 1) 0, mk_peak 20 0 0, mk_peak 30 2 0, mk_peak 40 2 0,
              mk_peak 50 5 0]"
  let ?t = "[mk_cluster (- 1) (- 1) 1, mk_cluster 0 0 1, mk_cluster 2 2 2, mk_cluster 5 2 1]"
  let ?s = "blank\<lparr>all_peaks := Some ?ps, clusters := Some ?t\<rparr>"
  let ?ps' = "[mk_peak 10 (- 1) 0, mk_peak 20 1 0, mk_peak 30 2 0, mk_peak 40 2 0,
               mk_peak 50 0 0]"
  let ?t' = "[mk_cluster (- 1) (- 1) 1, mk_cluster 0 0 1, mk_cluster 1 1 1, mk_cluster 2 0 2]"
  let ?pos = "[mk_cluster 0 0 1, mk_cluster 2 2 2, mk_cluster 5 2 1]"
  let ?argsort = "\<lambda>keys::float64 list. [1, 0, 2::nat]"
  have cells: "resolve_cells [52, 50, 52] = [0, 1, 0]"
    by code_simp
  have ev: "order_clusters ?argsort ''waveforms_rms'' ?s
      = Inr (blank\<lparr>all_peaks := Some ?ps', clusters := Some ?t'\<rparr>)"
    by (simp add: order_clusters_def cluster_order_def Let_def py_max_def wrap64_def
        shift_labels_def set_label_where_def cells mk_cluster_def mk_peak_def
        enumerate_eq_zip upt_rec)
  have h2: "all_peaks ?s = Some ?ps" by simp
  have h3: "clusters ?s = Some ?t" by simp
  have h4: "distinct (map cluster_label ?t)" by (simp add: mk_cluster_def)
  have h5: "\<forall>p\<in>set ?ps. label p \<in> set (map cluster_label ?t)"
    by (simp add: mk_cluster_def mk_peak_def)
  have h6: "\<forall>c\<in>set ?t. cluster_label c * 11 < 2 ^ 63" by (simp add: mk_cluster_def)
  have h7: "?pos = filter (\<lambda>c. 0 \<le> cluster_label c) ?t" by (simp add: mk_cluster_def)
  have h8: "[mk_cluster (- 1) (- 1) 1] = filter (\<lambda>c. cluster_label c < 0) ?t"
    by (simp add: mk_cluster_def)
  have h9: "[2, 0, 1] = cluster_order ?argsort ''waveforms_rms'' ?pos"
    by (simp add: cluster_order_def)
  have h10: "mset [2, 0, 1] = mset [0..<length ?pos]"
    by (simp add: upt_rec)
  from order_clusters_preserves [OF ev h2 h3 h4 h5 h6 h7 h8 h9 h10]
  have "count_label ?ps' (int 1) = count_label ?ps (cluster_label (?pos ! ([2, 0, 1] ! 1)))"
    by auto
  then have "count_label ?ps' 1 = count_label ?ps 0"
    by (simp add: mk_cluster_def)
  with ev show ?thesis
    by simp
qed

section \<open>Facts about the catalogue\<close>

lemma median_axis0_shape:
  "length (median_axis0 full_width nchan wfs) = full_width \<and>
   (\<forall>r\<in>set (median_axis0 full_width nchan wfs). length r = nchan)"
  by (auto simp: median_axis0_def)

lemma trim2_shape:
  assumes "length center = full_width" and "\<forall>r\<in>set center. length r = nchan"
  shows "length (trim2 center) = full_width - 4 \<and> (\<forall>r\<in>set (trim2 center). length r = nchan)"
proof
  show "length (trim2 center) = full_width - 4"
    using assms(1) by (simp add: trim2_def)
  show "\<forall>r\<in>set (trim2 center). length r = nchan"
    using assms(2) by (auto simp: trim2_def dest!: in_set_takeD in_set_dropD)
qed

lemma trimmed_median_shape:
  "length (trim2 (median_axis0 full_width nchan wfs)) = full_width - 4 \<and>
   (\<forall>r\<in>set (trim2 (median_axis0 full_width nchan wfs)). length r = nchan)"
  using median_axis0_shape [of full_width nchan wfs] by (intro trim2_shape) simp_all

lemma length_subsample_grid: "length (subsample_grid full_width) = 20 * (full_width - 4)"
  by (simp add: subsample_grid_def)

lemma cluster_templates_result:
  assumes "cluster_templates interp1d full_width nchan wf0 = Inr t"
  shows "templates_of full_width nchan wf0 t"
proof -
  from assms have ne: "wf0 \<noteq> []"
    by (auto simp: cluster_templates_def split: if_splits)
  let ?o = "interp1d (median_axis0 full_width nchan wf0) (subsample_grid full_width)"
  from assms ne have ok: "length ?o = length (subsample_grid full_width)"
    "\<forall>r\<in>set ?o. length r = nchan"
    and t: "t = (trim2 (median_axis0 full_width nchan wf0),
                 trim2 (median_axis0 full_width nchan
                          (map (central_difference full_width nchan) wf0)),
                 trim2 (median_axis0 full_width nchan
                          (map (central_difference full_width nchan)
                             (map (central_difference full_width nchan) wf0))),
                 ?o)"
    by (auto simp: cluster_templates_def Let_def split: if_splits)
  show ?thesis
    unfolding templates_of_def using ne ok by (simp add: t length_subsample_grid)
qed

lemma catalogue_loop_result:
  "catalogue_loop interp1d s a ks = Inr ts \<Longrightarrow>
     length ts = length ks \<and>
     (\<forall>i<length ks. \<exists>labels wf0.
        sample_labels s = Inr labels \<and> member_waveforms labels a (ks ! i) = Inr wf0 \<and>
        templates_of (fst (snd (shape a))) (snd (snd (shape a))) wf0 (ts ! i))"
proof (induction ks arbitrary: ts)
  case Nil
  then show ?case by simp
next
  case (Cons k ks)
  from Cons.prems obtain labels wf0 t others where
    l: "sample_labels s = Inr labels"
    and m: "member_waveforms labels a k = Inr wf0"
    and c: "cluster_templates interp1d (fst (snd (shape a))) (snd (snd (shape a))) wf0 = Inr t"
    and r: "catalogue_loop interp1d s a ks = Inr others"
    and ts: "ts = t # others"
    by (auto split: sum.splits)
  from Cons.IH [OF r] have len: "length others = length ks"
    and rest: "\<forall>i<length ks. \<exists>labels wf0.
        sample_labels s = Inr labels \<and> member_waveforms labels a (ks ! i) = Inr wf0 \<and>
        templates_of (fst (snd (shape a))) (snd (snd (shape a))) wf0 (others ! i)"
    by simp_all
  have first: "templates_of (fst (snd (shape a))) (snd (snd (shape a))) wf0 t"
    using c by (rule cluster_templates_result)
  show ?case
  proof (intro conjI allI impI)
    show "length ts = length (k # ks)" by (simp add: ts len)
  next
    fix i assume "i < length (k # ks)"
    show "\<exists>labels wf0. sample_labels s = Inr labels \<and>
        member_waveforms labels a ((k # ks) ! i) = Inr wf0 \<and>
        templates_of (fst (snd (shape a))) (snd (snd (shape a))) wf0 (ts ! i)"
    proof (cases i)
      case 0
      with l m first ts show ?thesis by auto
    next
      case (Suc j)
      with \<open>i < length (k # ks)\<close> have "j < length ks" by simp
      with rest Suc ts show ?thesis by auto
    qed
  qed
qed

lemma templates_of_shapes:
  assumes "templates_of full_width nchan wf0 t"
  shows "length (fst t) = full_width - 4 \<and> (\<forall>r\<in>set (fst t). length r = nchan)"
    and "length (fst (snd t)) = full_width - 4 \<and> (\<forall>r\<in>set (fst (snd t)). length r = nchan)"
    and "length (fst (snd (snd t))) = full_width - 4 \<and>
         (\<forall>r\<in>set (fst (snd (snd t))). length r = nchan)"
    and "length (snd (snd (snd t))) = 20 * (full_width - 4) \<and>
         (\<forall>r\<in>set (snd (snd (snd t))). length r = nchan)"
  using assms trimmed_median_shape unfolding templates_of_def by metis+

section \<open>Claim about the catalogue\<close>

text \<open>
  C7, as stated, fails for the templates of order 1 and 2: they are not the central
  differences of the median template. The code differentiates every member waveform and
  takes the median of the derivatives (\<^verbatim>\<open>centers1\<close> is commented as the median of
  the first derivative of the waveforms), and a median does not commute with a
  difference. Here one cluster has three waveforms of five samples on one channel;
  \<^verbatim>\<open>centers1\<close> holds \<open>1/2\<close> at its one sample, and the central difference of the
  median template, trimmed in the same way, is \<open>3/2\<close>.
\<close>

theorem make_catalogue_median_of_differences_counterexample:
  "map_sum id (\<lambda>c. entries (centers1 c))
     (make_catalogue (\<lambda>center grid. map (\<lambda>x. [0]) grid)
        (blank\<lparr>info := \<lparr>params_waveformextractor = Some (- 2, 3), processed_length = None\<rparr>,
                all_peaks := Some [mk_peak 10 0 0, mk_peak 20 0 0, mk_peak 30 0 0],
                clusters := Some [mk_cluster 0 0 3],
                some_peaks_index := Some [0, 1, 2],
                some_waveforms := Some \<lparr>shape = (3, 5, 1),
                   entries = [[[0], [0], [0], [4], [0]],
                              [[0], [1], [0], [1], [0]],
                              [[0], [5], [0], [6], [0]]]\<rparr>\<rparr>))
     = Inr [[[1 / 2]]]
   \<and> trim2 (central_difference 5 1
        (median_axis0 5 1 [[[0], [0], [0], [4], [0]],
                           [[0], [1], [0], [1], [0]],
                           [[0], [5], [0], [6], [0]]]))
     = [[3 / 2]]"
proof -
  let ?wfs = "[[[0], [0], [0], [4], [0]], [[0], [1], [0], [1], [0]], [[0], [5], [0], [6], [0::real]]]"
  have m0: "median_axis0 5 1 ?wfs = [[0], [1], [0], [4], [0]]"
    by (simp add: median_axis0_def np_median_def upt_rec)
  have m1: "trim2 (median_axis0 5 1 (map (central_difference 5 1) ?wfs)) = [[1 / 2]]"
    by (simp add: trim2_def median_axis0_def np_median_def central_difference_def upt_rec)
  have d0: "trim2 (central_difference 5 1 [[0], [1], [0], [4], [0]]) = [[3 / 2]]"
    by (simp add: trim2_def central_difference_def upt_rec)
  have t0: "trim2 [[0], [1], [0], [4], [0::real]] = [[0]]"
    by (simp add: trim2_def)
  have grid: "length (subsample_grid 5) = 20"
    by (simp add: subsample_grid_def)
  have tmpl: "cluster_templates (\<lambda>center grid. map (\<lambda>x. [0]) grid) 5 1 ?wfs
      = Inr ([[0]], [[1 / 2]],
             trim2 (median_axis0 5 1
               (map (central_difference 5 1) (map (central_difference 5 1) ?wfs))),
             map (\<lambda>x. [0]) (subsample_grid 5))"
    by (simp add: cluster_templates_def Let_def m0 [unfolded One_nat_def]
        m1 [unfolded One_nat_def list.map] t0 del: map_map)
  show ?thesis
    by (simp add: make_catalogue_def cluster_labels_def sample_labels_def
        member_waveforms_def tmpl [unfolded One_nat_def] template_max_channel_def
        np_argmax_def m0 [unfolded One_nat_def] d0 [unfolded One_nat_def]
        mk_cluster_def mk_peak_def blank_def Let_def del: map_map)
qed

text \<open>
  C7, amended: when \<^verbatim>\<open>make_catalogue\<close> returns on a waveform array of shape
  \<open>(n, W, channel_count)\<close> with \<open>C\<close> cluster labels \<open>\<ge> 0\<close>, then \<open>W \<ge> 4\<close>, the
  templates of order 0, 1 and 2 have the shape \<open>(C, W - 4, channel_count)\<close> and the
  oversampled interpolant has the shape \<open>(C, 20 * (W - 4), channel_count)\<close>, every array
  filling its shape. For each cluster the order-0 template is the median of its member
  waveforms, the order-1 template is the median of their central differences, the
  order-2 template is the median of the central differences of those, each without its
  first two and last two samples.
\<close>

theorem make_catalogue_shapes:
  assumes "make_catalogue interp1d s = Inr cat"
    and "some_waveforms s = Some a"
    and "shape a = (n, W, nchan)"
    and "ks = filter (\<lambda>k. 0 \<le> k) (cluster_labels s)"
  shows "4 \<le> W \<and>
         shape (centers0 cat) = (length ks, W - 4, nchan) \<and> tensor_ok (centers0 cat) \<and>
         shape (centers1 cat) = (length ks, W - 4, nchan) \<and> tensor_ok (centers1 cat) \<and>
         shape (centers2 cat) = (length ks, W - 4, nchan) \<and> tensor_ok (centers2 cat) \<and>
         shape (interp_centers0 cat) = (length ks, 20 * (W - 4), nchan) \<and>
         tensor_ok (interp_centers0 cat) \<and>
         (\<forall>i<length ks. \<exists>labels wf0.
            sample_labels s = Inr labels \<and> member_waveforms labels a (ks ! i) = Inr wf0 \<and>
            wf0 \<noteq> [] \<and>
            entries (centers0 cat) ! i = trim2 (median_axis0 W nchan wf0) \<and>
            entries (centers1 cat) ! i
              = trim2 (median_axis0 W nchan (map (central_difference W nchan) wf0)) \<and>
            entries (centers2 cat) ! i
              = trim2 (median_axis0 W nchan
                  (map (central_difference W nchan) (map (central_difference W nchan) wf0))))"
proof -
  have W: "fst (snd (shape a)) = W" and nchan: "snd (snd (shape a)) = nchan"
    by (simp_all add: assms(3))
  let ?W = "fst (snd (shape a))" and ?n = "snd (snd (shape a))"
  from assms(1,2) obtain ts where
    width': "\<not> ?W < 4"
    and loop: "catalogue_loop interp1d s a ks = Inr ts"
    and c0': "centers0 cat = \<lparr>shape = (length ks, ?W - 4, ?n), entries = map fst ts\<rparr>"
    and c1': "centers1 cat
        = \<lparr>shape = (length ks, ?W - 4, ?n), entries = map (\<lambda>t. fst (snd t)) ts\<rparr>"
    and c2': "centers2 cat
        = \<lparr>shape = (length ks, ?W - 4, ?n), entries = map (\<lambda>t. fst (snd (snd t))) ts\<rparr>"
    and ci': "interp_centers0 cat
        = \<lparr>shape = (length ks, length (subsample_grid ?W), ?n),
           entries = map (\<lambda>t. snd (snd (snd t))) ts\<rparr>"
    unfolding make_catalogue_def Let_def assms(4) [symmetric]
    by (auto split: option.splits if_splits sum.splits)
  note width = width' [unfolded W] and c0 = c0' [unfolded W nchan]
    and c1 = c1' [unfolded W nchan] and c2 = c2' [unfolded W nchan]
    and ci = ci' [unfolded W nchan]
  from catalogue_loop_result [OF loop]
  have len: "length ts = length ks"
    and each: "\<forall>i<length ks. \<exists>labels wf0.
        sample_labels s = Inr labels \<and> member_waveforms labels a (ks ! i) = Inr wf0 \<and>
        templates_of W nchan wf0 (ts ! i)"
    by (simp_all add: W nchan)
  have all: "\<forall>t\<in>set ts. \<exists>wf0. templates_of W nchan wf0 t"
  proof
    fix t assume "t \<in> set ts"
    then obtain i where "i < length ts" and "ts ! i = t"
      by (auto simp: in_set_conv_nth)
    with each len show "\<exists>wf0. templates_of W nchan wf0 t" by metis
  qed
  have ok0: "tensor_ok (centers0 cat)"
    unfolding tensor_ok_def c0 using all len by (auto dest: templates_of_shapes(1))
  have ok1: "tensor_ok (centers1 cat)"
    unfolding tensor_ok_def c1 using all len by (auto dest: templates_of_shapes(2))
  have ok2: "tensor_ok (centers2 cat)"
    unfolding tensor_ok_def c2 using all len by (auto dest: templates_of_shapes(3))
  have oki: "tensor_ok (interp_centers0 cat)"
    unfolding tensor_ok_def ci using all len
    by (auto simp: length_subsample_grid dest: templates_of_shapes(4))
  have content: "\<forall>i<length ks. \<exists>labels wf0.
      sample_labels s = Inr labels \<and> member_waveforms labels a (ks ! i) = Inr wf0 \<and>
      wf0 \<noteq> [] \<and>
      entries (centers0 cat) ! i = trim2 (median_axis0 W nchan wf0) \<and>
      entries (centers1 cat) ! i
        = trim2 (median_axis0 W nchan (map (central_difference W nchan) wf0)) \<and>
      entries (centers2 cat) ! i
        = trim2 (median_axis0 W nchan
            (map (central_difference W nchan) (map (central_difference W nchan) wf0)))"
  proof (intro allI impI)
    fix i assume i: "i < length ks"
    with each obtain labels wf0 where
      l: "sample_labels s = Inr labels" and m: "member_waveforms labels a (ks ! i) = Inr wf0"
      and t: "templates_of W nchan wf0 (ts ! i)"
      by blast
    from t i len show "\<exists>labels wf0.
      sample_labels s = Inr labels \<and> member_waveforms labels a (ks ! i) = Inr wf0 \<and>
      wf0 \<noteq> [] \<and>
      entries (centers0 cat) ! i = trim2 (median_axis0 W nchan wf0) \<and>
      entries (centers1 cat) ! i
        = trim2 (median_axis0 W nchan (map (central_difference W nchan) wf0)) \<and>
      entries (centers2 cat) ! i
        = trim2 (median_axis0 W nchan
            (map (central_difference W nchan) (map (central_difference W nchan) wf0)))"
      unfolding templates_of_def c0 c1 c2
      by (intro exI [of _ labels] exI [of _ wf0]) (simp add: l m)
  qed
  from width ok0 ok1 ok2 oki content show ?thesis
    by (simp add: c0 c1 c2 ci length_subsample_grid)
qed

theorem make_catalogue_shapes_witness:
  "map_sum id (\<lambda>c. shape (centers0 c))
     (make_catalogue (\<lambda>center grid. map (\<lambda>x. [0]) grid)
        (blank\<lparr>info := \<lparr>params_waveformextractor = Some (- 2, 4), processed_length = None\<rparr>,
                all_peaks := Some [mk_peak 10 0 0, mk_peak 20 (- 1) 0, mk_peak 30 0 0],
                clusters := Some [mk_cluster (- 1) (- 1) 1, mk_cluster 0 0 2],
                some_peaks_index := Some [0, 2],
                some_waveforms := Some \<lparr>shape = (2, 6, 1),
                   entries = [[[0], [0], [2], [4], [0], [0]],
                              [[0], [1], [4], [1], [0], [0]]]\<rparr>\<rparr>))
     = Inr (1, 2, 1)
   \<and> map_sum id (\<lambda>c. shape (interp_centers0 c))
     (make_catalogue (\<lambda>center grid. map (\<lambda>x. [0]) grid)
        (blank\<lparr>info := \<lparr>params_waveformextractor = Some (- 2, 4), processed_length = None\<rparr>,
                all_peaks := Some [mk_peak 10 0 0, mk_peak 20 (- 1) 0, mk_peak 30 0 0],
                clusters := Some [mk_cluster (- 1) (- 1) 1, mk_cluster 0 0 2],
                some_peaks_index := Some [0, 2],
                some_waveforms := Some \<lparr>shape = (2, 6, 1),
                   entries = [[[0], [0], [2], [4], [0], [0]],
                              [[0], [1], [4], [1], [0], [0]]]\<rparr>\<rparr>))
     = Inr (1, 40, 1)"
proof -
  let ?a = "\<lparr>shape = (2, 6, 1),
             entries = [[[0], [0], [2], [4], [0], [0]], [[0], [1], [4], [1], [0], [0::real]]]\<rparr>"
  let ?s = "blank\<lparr>info := \<lparr>params_waveformextractor = Some (- 2, 4), processed_length = None\<rparr>,
                all_peaks := Some [mk_peak 10 0 0, mk_peak 20 (- 1) 0, mk_peak 30 0 0],
                clusters := Some [mk_cluster (- 1) (- 1) 1, mk_cluster 0 0 2],
                some_peaks_index := Some [0, 2],
                some_waveforms := Some ?a\<rparr>"
  let ?interp = "\<lambda>(center::real list list) (grid::real list). map (\<lambda>x. [0::real]) grid"
  let ?wfs = "[[[0], [0], [2], [4], [0], [0]], [[0], [1], [4], [1], [0], [0::real]]]"
  have m0: "median_axis0 6 (Suc 0) ?wfs = [[0], [1 / 2], [3], [5 / 2], [0], [0]]"
    by (simp add: median_axis0_def np_median_def upt_rec)
  have tmpl: "\<exists>t. cluster_templates ?interp 6 (Suc 0) ?wfs = Inr t
      \<and> fst t = [[3], [5 / 2]]"
    by (simp add: cluster_templates_def Let_def m0 trim2_def subsample_grid_def)
  then obtain t where t: "cluster_templates ?interp 6 (Suc 0) ?wfs = Inr t"
    and ft: "fst t = [[3], [5 / 2]]"
    by blast
  have ex: "\<exists>cat. make_catalogue ?interp ?s = Inr cat"
    by (simp add: make_catalogue_def cluster_labels_def sample_labels_def
        member_waveforms_def t ft template_max_channel_def np_argmax_def
        mk_cluster_def mk_peak_def blank_def Let_def del: map_map)
  then obtain cat where cat: "make_catalogue ?interp ?s = Inr cat" by blast
  have h2: "some_waveforms ?s = Some ?a" by simp
  have h3: "shape ?a = (2, 6, 1)" by simp
  have h4: "[0] = filter (\<lambda>k. 0 \<le> k) (cluster_labels ?s)"
    by (simp add: cluster_labels_def mk_cluster_def)
  from make_catalogue_shapes [OF cat h2 h3 h4]
  have "shape (centers0 cat) = (1, 2, 1)" and "shape (interp_centers0 cat) = (1, 40, 1)"
    by simp_all
  then show ?thesis
    unfolding cat by simp
qed

end
